theory Spec2Isabelle
  imports Main "HOL-Library.Word" "HOL-Library.Sublist"
begin

section \<open>JavaScript values used by the resume editor\<close>

text \<open>
  A JavaScript string is a sequence of UTF-16 code units. Every character of the
  template (ASCII punctuation and Japanese labels of the Basic Multilingual Plane) is
  one code unit, so the labels are written as lists of code-unit numerals.
\<close>

type_synonym jsstring = "16 word list"

definition ascii :: "string \<Rightarrow> jsstring" where
  "ascii s = map of_char s"

definition nl :: jsstring where
  "nl = [0x0A]"

text \<open>
  A field of the form data read at run time: a string, or \<open>undefined\<close>/\<open>null\<close> when
  the field is missing. \<open>truthy\<close> is the test of \<open>if (x)\<close>, \<open>x ? a : b\<close> and \<open>x || d\<close>;
  \<open>toString\<close> is what a template literal \<open>${x}\<close> renders.
\<close>

datatype jsval = Undefined | Null | Str jsstring

fun truthy :: "jsval \<Rightarrow> bool" where
  "truthy Undefined = False"
| "truthy Null = False"
| "truthy (Str s) = (s \<noteq> [])"

fun toString :: "jsval \<Rightarrow> jsstring" where
  "toString Undefined = ascii ''undefined''"
| "toString Null = ascii ''null''"
| "toString (Str s) = s"

definition jsOr :: "jsval \<Rightarrow> jsval \<Rightarrow> jsval" where
  "jsOr x d = (if truthy x then x else d)"

text \<open>
  The only exception the formatter and the parser could raise is the \<open>TypeError\<close> of a
  method call or an index on \<open>undefined\<close>/\<open>null\<close>.
\<close>

datatype js_error = TypeError

definition bind_err :: "js_error + 'a \<Rightarrow> ('a \<Rightarrow> js_error + 'b) \<Rightarrow> js_error + 'b" where
  "bind_err m f = (case m of Inl e \<Rightarrow> Inl e | Inr x \<Rightarrow> f x)"

fun mapE :: "('a \<Rightarrow> js_error + 'b) \<Rightarrow> 'a list \<Rightarrow> js_error + 'b list" where
  "mapE f [] = Inr []"
| "mapE f (x # xs) = bind_err (f x) (\<lambda>y. bind_err (mapE f xs) (\<lambda>ys. Inr (y # ys)))"

text \<open>
  A template literal is a sequence of literal chunks, interpolated values \<open>${v}\<close> and
  interpolated calls \<open>${f(...)}\<close>; it is evaluated left to right and an exception of an
  interpolated expression aborts it.
\<close>

datatype part = Lit jsstring | Val jsval | Sub "js_error + jsstring"

fun template :: "part list \<Rightarrow> js_error + jsstring" where
  "template [] = Inr []"
| "template (Lit s # ps) = bind_err (template ps) (\<lambda>r. Inr (s @ r))"
| "template (Val v # ps) = bind_err (template ps) (\<lambda>r. Inr (toString v @ r))"
| "template (Sub e # ps) = bind_err e (\<lambda>s. bind_err (template ps) (\<lambda>r. Inr (s @ r)))"

text \<open>\<open>Array.prototype.join\<close> on an array of strings.\<close>

fun join :: "jsstring \<Rightarrow> jsstring list \<Rightarrow> jsstring" where
  "join sep [] = []"
| "join sep [x] = x"
| "join sep (x # y # ys) = x @ sep @ join sep (y # ys)"

text \<open>
  \<open>s.replace(p, r)\<close> with a string pattern of one code unit and a replacement that has
  no \<open>$\<close> pattern: the first occurrence only is replaced.
\<close>

fun replaceFirst :: "16 word \<Rightarrow> jsstring \<Rightarrow> jsstring \<Rightarrow> jsstring" where
  "replaceFirst p r [] = []"
| "replaceFirst p r (c # cs) = (if c = p then r @ cs else c # replaceFirst p r cs)"

text \<open>
  \<open>String.prototype.trim\<close>: strips the WhiteSpace and LineTerminator code units of
  ECMAScript from both ends.
\<close>

definition isWhiteSpace :: "16 word \<Rightarrow> bool" where
  "isWhiteSpace c \<longleftrightarrow>
     c \<in> {0x09, 0x0A, 0x0B, 0x0C, 0x0D, 0x20, 0xA0, 0x1680, 0x2028, 0x2029, 0x202F,
          0x205F, 0x3000, 0xFEFF} \<or> (0x2000 \<le> c \<and> c \<le> 0x200A)"

definition trim :: "jsstring \<Rightarrow> jsstring" where
  "trim s = rev (dropWhile isWhiteSpace (rev (dropWhile isWhiteSpace s)))"


section \<open>formatDate and parseTemplateContent\<close>

text \<open>
  \<^verbatim>\<open>if (!date) return ""; return date.replace("-", "<U+5E74>") + "<U+6708>";\<close>
  U+5E74 is the year marker, U+6708 the month marker.
\<close>

definition yearMarker :: jsstring where
  "yearMarker = [0x5E74]"

definition monthMarker :: jsstring where
  "monthMarker = [0x6708]"

definition formatDate :: "jsval \<Rightarrow> js_error + jsstring" where
  "formatDate date =
     (if \<not> truthy date then Inr []
      else case date of
             Str d \<Rightarrow> Inr (replaceFirst 0x2D yearMarker d @ monthMarker)
           | _ \<Rightarrow> Inl TypeError)"

text \<open>
  The details header the parser looks for: \<^verbatim>\<open>## <U+8077 U+52D9 U+8A73 U+7D30>\n\n\<close>.
\<close>

definition detailsLabel :: jsstring where
  "detailsLabel = [0x8077, 0x52D9, 0x8A73, 0x7D30]"

definition detailsMarker :: jsstring where
  "detailsMarker = ascii ''## '' @ detailsLabel @ nl @ nl"

text \<open>
  \<^verbatim>\<open>content.match(/## <label>\n\n([\s\S]*?)$/)\<close>. The expression has no flag, so \<open>$\<close>
  holds at the end of the input only, and \<open>[\s\S]\<close> accepts every code unit: at a
  position where the literal header matches, the lazy group grows until it reaches the
  end of the input, where the match succeeds. The engine tries the start positions from
  the left, so the result is \<open>null\<close> (\<open>None\<close>) when the header occurs nowhere, and
  otherwise group 1 is everything after the leftmost header.
\<close>

fun matchDetails :: "jsstring \<Rightarrow> jsstring option" where
  "matchDetails [] = None"
| "matchDetails (c # cs) =
     (if prefix detailsMarker (c # cs) then Some (drop (length detailsMarker) (c # cs))
      else matchDetails cs)"

text \<open>
  \<^verbatim>\<open>const parsedContent = descriptionMatch ? descriptionMatch[1].trim() : content;\<close>
\<close>

definition parseTemplateContent :: "jsstring \<Rightarrow> js_error + jsstring" where
  "parseTemplateContent content =
     (let descriptionMatch = matchDetails content
      in if descriptionMatch \<noteq> None
         then (case descriptionMatch of
                 Some group1 \<Rightarrow> Inr (trim group1)
               | None \<Rightarrow> Inl TypeError)
         else Inr content)"


section \<open>The form data\<close>

text \<open>
  The type \<open>FormData\<close> of \<^verbatim>\<open>@/types/form\<close> as the formatter and the hydration read it:
  the nested objects and the list of previous jobs are always present (they are read
  unguarded), every string field may be missing at run time, and the list of additional
  education entries may be absent (\<open>None\<close>).
\<close>

record WorkExperience =
  companyName :: jsval
  companyUrl :: jsval
  startDate :: jsval
  endDate :: jsval
  job_position :: jsval
  title :: jsval
  achievements :: jsval
  isSameAsCurrentCompany :: bool

record Education =
  university :: jsval
  faculty :: jsval
  department :: jsval
  graduationDate :: jsval

record EducationHistory =
  schoolName :: jsval
  eh_graduationDate :: jsval
  eh_department :: jsval
  eh_faculty :: jsval
  major :: jsval

record FormData =
  resume_id :: jsval
  name :: jsval
  industry :: jsval
  position :: jsval
  experience :: jsval
  skills :: jsval
  summary :: jsval
  description :: jsval
  education :: Education
  currentJob :: WorkExperience
  previousJobs :: "WorkExperience list"
  educationHistories :: "EducationHistory list option"
  created_at :: jsval
  updated_at :: jsval
  user_id :: jsval


section \<open>formatTemplateContent\<close>

text \<open>
  The callback of \<^verbatim>\<open>data.educationHistories.map\<close>: five lines, the labels being
  U+5352 U+696D U+5E74 U+6708 (graduation date), U+5B66 U+90E8 / U+5B66 U+79D1
  (faculty/department), U+5B66 U+90E8 (faculty) and U+5C02 U+653B (major).
\<close>

definition educationHistoryEntry :: "EducationHistory \<Rightarrow> js_error + jsstring" where
  "educationHistoryEntry edu = template
     [Lit (ascii ''### ''), Val (jsOr (schoolName edu) (Str [])), Lit nl,
      Lit (ascii ''**'' @ [0x5352, 0x696D, 0x5E74, 0x6708] @ ascii '':** ''),
        Sub (formatDate (eh_graduationDate edu)), Lit (ascii ''  '' @ nl),
      Lit (ascii ''**'' @ [0x5B66, 0x90E8] @ ascii ''/'' @ [0x5B66, 0x79D1] @ ascii '':** ''),
        Val (jsOr (eh_department edu) (Str [])), Lit (ascii ''  '' @ nl),
      Sub (if truthy (eh_faculty edu)
           then template [Lit (ascii ''**'' @ [0x5B66, 0x90E8] @ ascii '':** ''),
                          Val (eh_faculty edu), Lit (ascii ''  '')]
           else Inr []), Lit nl,
      Sub (if truthy (major edu)
           then template [Lit (ascii ''**'' @ [0x5C02, 0x653B] @ ascii '':** ''), Val (major edu)]
           else Inr [])]"

text \<open>
  \<^verbatim>\<open>const educationHistories = data.educationHistories
     ? data.educationHistories.map(...).join("\n\n") : "";\<close>
\<close>

definition educationHistoriesText :: "FormData \<Rightarrow> js_error + jsstring" where
  "educationHistoriesText data =
     (case educationHistories data of
        Some ehs \<Rightarrow> bind_err (mapE educationHistoryEntry ehs) (\<lambda>es. Inr (join (nl @ nl) es))
      | None \<Rightarrow> Inr [])"

text \<open>
  The callback of \<^verbatim>\<open>data.previousJobs.map\<close>. Labels: U+671F U+9593 (period), U+FF5E
  (wave dash), U+8077 U+7A2E (job type), U+5F79 U+8077 (job title), U+696D U+52D9 U+5185
  U+5BB9 U+30FB U+5B9F U+7E3E (duties and achievements).
\<close>

definition previousJobEntry :: "WorkExperience \<Rightarrow> js_error + jsstring" where
  "previousJobEntry job = template
     [Lit (ascii ''### ''), Val (jsOr (companyName job) (Str [])), Lit nl,
      Lit nl,
      Sub (if truthy (companyUrl job)
           then template [Lit (ascii ''URL: ''), Val (companyUrl job), Lit (ascii ''  '' @ nl)]
           else Inr []), Lit nl,
      Lit (ascii ''**'' @ [0x671F, 0x9593] @ ascii '':** ''), Sub (formatDate (startDate job)),
        Lit (ascii '' '' @ [0xFF5E] @ ascii '' ''), Sub (formatDate (endDate job)),
        Lit (ascii ''  '' @ nl),
      Lit (ascii ''**'' @ [0x8077, 0x7A2E] @ ascii '':** ''),
        Val (jsOr (job_position job) (Str [])), Lit (ascii ''  '' @ nl),
      Lit (ascii ''**'' @ [0x5F79, 0x8077] @ ascii '':** ''),
        Val (jsOr (title job) (Str [])), Lit (ascii ''  '' @ nl),
      Lit nl,
      Lit (ascii ''#### '' @ [0x696D, 0x52D9, 0x5185, 0x5BB9, 0x30FB, 0x5B9F, 0x7E3E] @ nl),
      Val (jsOr (achievements job) (Str []))]"

text \<open>
  The template literal of \<open>formatTemplateContent\<close>, cut at the interpolation of the
  additional education: \<open>headParts\<close> is everything before it (title, basic information
  table, summary, skills, current job, previous jobs, last education), \<open>tailParts\<close>
  everything after it (the details header and the description).
\<close>

definition headParts :: "FormData \<Rightarrow> part list" where
  "headParts data =
     [Lit (ascii ''# '' @ [0x8077, 0x52D9, 0x7D4C, 0x6B74, 0x66F8] @ nl),
      Lit nl,
      Lit (ascii ''## '' @ [0x57FA, 0x672C, 0x60C5, 0x5831] @ nl),
      Lit nl,
      Lit (ascii ''| '' @ [0x9805, 0x76EE] @ ascii '' | '' @ [0x5185, 0x5BB9] @ ascii '' |'' @ nl),
      Lit (ascii ''|------|------|'' @ nl),
      Lit (ascii ''| '' @ [0x6C0F, 0x540D] @ ascii '' | ''),
        Val (jsOr (name data) (Str [])), Lit (ascii '' |'' @ nl),
      Lit (ascii ''| '' @ [0x5E0C, 0x671B, 0x8077, 0x7A2E] @ ascii '' | ''),
        Val (jsOr (position data) (Str [])), Lit (ascii '' |'' @ nl),
      Lit (ascii ''| '' @ [0x696D, 0x754C] @ ascii '' | ''),
        Val (jsOr (industry data) (Str [])), Lit (ascii '' |'' @ nl),
      Lit (ascii ''| '' @ [0x7D4C, 0x9A13, 0x5E74, 0x6570] @ ascii '' | ''),
        Val (jsOr (experience data) (Str [])), Lit ([0x5E74] @ ascii '' |'' @ nl),
      Lit nl,
      Lit (ascii ''## '' @ [0x8077, 0x52D9, 0x8981, 0x7D04] @ nl),
      Lit nl,
      Val (jsOr (summary data) (Str [])), Lit nl,
      Lit nl,
      Lit (ascii ''## '' @ [0x30B9, 0x30AD, 0x30EB] @ nl),
      Lit nl,
      Val (jsOr (skills data) (Str [])), Lit nl,
      Lit nl,
      Lit (ascii ''## '' @ [0x8077, 0x52D9, 0x7D4C, 0x6B74] @ nl),
      Lit nl,
      Lit (ascii ''### '' @ [0x73FE, 0x8077] @ nl),
      Lit nl,
      Lit (ascii ''**''), Val (jsOr (companyName (currentJob data)) (Str [])),
        Lit (ascii ''**  '' @ nl),
      Sub (if truthy (companyUrl (currentJob data))
           then template [Lit (ascii ''URL: ''), Val (companyUrl (currentJob data)),
                          Lit (ascii ''  '' @ nl)]
           else Inr []), Lit nl,
      Lit (ascii ''**'' @ [0x671F, 0x9593] @ ascii '':** ''),
        Sub (formatDate (startDate (currentJob data))),
        Lit (ascii '' '' @ [0xFF5E] @ ascii '' '' @ [0x73FE, 0x5728] @ ascii ''  '' @ nl),
      Lit (ascii ''**'' @ [0x8077, 0x7A2E] @ ascii '':** ''),
        Val (jsOr (job_position (currentJob data)) (Str [])), Lit (ascii ''  '' @ nl),
      Lit (ascii ''**'' @ [0x5F79, 0x8077] @ ascii '':** ''),
        Val (jsOr (title (currentJob data)) (Str [])), Lit (ascii ''  '' @ nl),
      Lit nl,
      Lit (ascii ''#### '' @ [0x696D, 0x52D9, 0x5185, 0x5BB9, 0x30FB, 0x5B9F, 0x7E3E] @ nl),
      Val (jsOr (achievements (currentJob data)) (Str [])), Lit nl,
      Lit nl,
      Sub (bind_err (mapE previousJobEntry (previousJobs data))
             (\<lambda>jobs. Inr (join (nl @ nl) jobs))), Lit nl,
      Lit nl,
      Lit (ascii ''## '' @ [0x5B66, 0x6B74] @ nl),
      Lit nl,
      Lit (ascii ''### '' @ [0x6700, 0x7D42, 0x5B66, 0x6B74] @ nl),
      Lit (ascii ''**''), Val (jsOr (university (education data)) (Str [])),
        Lit (ascii ''** ''), Val (jsOr (faculty (education data)) (Str [])),
        Lit (ascii '' ''), Val (jsOr (department (education data)) (Str [])),
        Lit (ascii ''  '' @ nl),
      Sub (formatDate (graduationDate (education data))), Lit ([0x5352, 0x696D] @ nl),
      Lit nl]"

text \<open>
  \<^verbatim>\<open>${educationHistories ? `### <header>\n\n${educationHistories}` : ""}\<close>, the header being
  U+305D U+306E U+4ED6 U+5B66 U+6B74 (other education); \<open>joined\<close> is the string constant
  \<open>educationHistories\<close> of the source, computed by \<open>educationHistoriesText\<close>.
\<close>

definition additionalEducationHeader :: jsstring where
  "additionalEducationHeader = ascii ''### '' @ [0x305D, 0x306E, 0x4ED6, 0x5B66, 0x6B74]"

definition additionalEducation :: "jsstring \<Rightarrow> js_error + jsstring" where
  "additionalEducation joined =
     (if joined \<noteq> []
      then template [Lit (additionalEducationHeader @ nl @ nl), Val (Str joined)]
      else Inr [])"

text \<open>
  The placeholder prompt U+4ED5 U+4E8B U+5185 U+5BB9 U+3092 U+5165 U+529B U+3057 U+3066
  U+304F U+3060 U+3055 U+3044 (please enter the job description).
\<close>

definition placeholderPrompt :: jsstring where
  "placeholderPrompt = [0x4ED5, 0x4E8B, 0x5185, 0x5BB9, 0x3092, 0x5165, 0x529B, 0x3057, 0x3066,
     0x304F, 0x3060, 0x3055, 0x3044]"

definition tailParts :: "FormData \<Rightarrow> part list" where
  "tailParts data =
     [Lit nl,
      Lit nl,
      Lit (ascii ''## '' @ detailsLabel @ nl),
      Lit nl,
      Val (jsOr (description data) (Str placeholderPrompt))]"

definition formatTemplateContent :: "FormData \<Rightarrow> js_error + jsstring" where
  "formatTemplateContent data =
     bind_err (educationHistoriesText data) (\<lambda>joined.
       template (headParts data @ [Sub (additionalEducation joined)] @ tailParts data))"


section \<open>The editor handlers of ResumeEditor\<close>

text \<open>
  The component state (\<open>useState\<close>) and the callbacks it receives as props. A handler
  takes the state of the render it runs in and returns the state of the next render
  together with the calls it made on \<open>onEdit\<close> and \<open>onFinishEditing\<close>, in order.
\<close>

record EditorState =
  editorContent :: jsstring
  internalIsEditing :: bool

datatype callback = OnEdit jsstring | OnFinishEditing

text \<open>
  \<open>handleEditorChange\<close> of the component that renders \<open>HtmlRichEditor\<close>: it returns at
  once on empty content and on content equal to \<open>editorContent\<close>, and wraps the parse and
  the call of \<open>onEdit\<close> in \<open>try/catch\<close>, which only logs.
\<close>

definition handleEditorChange :: "jsstring \<Rightarrow> EditorState \<Rightarrow> EditorState \<times> callback list" where
  "handleEditorChange content st =
     (if content = [] then (st, [])
      else if content = editorContent st then (st, [])
      else let st' = st\<lparr>editorContent := content\<rparr>
           in if internalIsEditing st
              then (case parseTemplateContent content of
                      Inr parsedContent \<Rightarrow> (st', [OnEdit parsedContent])
                    | Inl error \<Rightarrow> (st', []))
              else (st', []))"

text \<open>
  \<open>handleEditorChange\<close> of \<^verbatim>\<open>src/components/ResumeEditor.tsx\<close> (the component that
  renders \<open>MarkdownEditor\<close>): no early return and no \<open>try/catch\<close>.
\<close>

definition handleEditorChange_tsx ::
    "jsstring \<Rightarrow> EditorState \<Rightarrow> js_error + EditorState \<times> callback list" where
  "handleEditorChange_tsx content st =
     (let st' = st\<lparr>editorContent := content\<rparr>
      in if internalIsEditing st
         then bind_err (parseTemplateContent content)
                (\<lambda>parsedContent. Inr (st', [OnEdit parsedContent]))
         else Inr (st', []))"

text \<open>\<open>handleFinishEdit\<close>, the same in both components.\<close>

definition handleFinishEdit :: "EditorState \<Rightarrow> js_error + callback list" where
  "handleFinishEdit st =
     bind_err (parseTemplateContent (editorContent st))
       (\<lambda>parsedContent. Inr [OnEdit parsedContent, OnFinishEditing])"


section \<open>fetchResumeData of useDirectEditMode\<close>

text \<open>
  The row of the table \<open>resumes\<close> as the hydration reads it. \<open>current_job\<close> is \<open>None\<close>
  when the column is null or not an object, \<open>cj_education\<close> is \<open>None\<close> when the key is
  absent, null or not an object, \<open>previous_jobs\<close> is \<open>None\<close> when the column is not an
  array, and an element of the array is \<open>None\<close> when it is null (\<open>job?.x\<close>). The leaves are
  strings or missing.
\<close>

record EducationJson =
  e_university :: jsval
  e_faculty :: jsval
  e_department :: jsval
  e_graduationDate :: jsval

record CurrentJobJson =
  cj_companyName :: jsval
  cj_companyUrl :: jsval
  cj_startDate :: jsval
  cj_position :: jsval
  cj_title :: jsval
  cj_achievements :: jsval
  cj_education :: "EducationJson option"

record PreviousJobJson =
  pj_companyName :: jsval
  pj_companyUrl :: jsval
  pj_startDate :: jsval
  pj_endDate :: jsval
  pj_position :: jsval
  pj_title :: jsval
  pj_achievements :: jsval
  pj_isSameAsCurrentCompany :: "bool option"

record ResumeRow =
  row_id :: jsval
  row_name :: jsval
  row_industry :: jsval
  row_position :: jsval
  row_experience :: jsval
  row_skills :: jsval
  row_summary :: jsval
  row_description :: jsval
  current_job :: "CurrentJobJson option"
  previous_jobs :: "PreviousJobJson option list option"
  row_created_at :: jsval
  row_updated_at :: jsval
  row_user_id :: jsval

text \<open>\<open>x || ""\<close> on a leaf, and \<open>obj?.x || ""\<close> on a leaf of an object that may be null.\<close>

definition orEmpty :: "jsval \<Rightarrow> jsval" where
  "orEmpty v = jsOr v (Str [])"

definition fieldOrEmpty :: "'a option \<Rightarrow> ('a \<Rightarrow> jsval) \<Rightarrow> jsval" where
  "fieldOrEmpty obj f = (case obj of Some x \<Rightarrow> orEmpty (f x) | None \<Rightarrow> Str [])"

definition previousJobOfJson :: "PreviousJobJson option \<Rightarrow> WorkExperience" where
  "previousJobOfJson job =
     \<lparr> companyName = fieldOrEmpty job pj_companyName,
       companyUrl = fieldOrEmpty job pj_companyUrl,
       startDate = fieldOrEmpty job pj_startDate,
       endDate = fieldOrEmpty job pj_endDate,
       job_position = fieldOrEmpty job pj_position,
       title = fieldOrEmpty job pj_title,
       achievements = fieldOrEmpty job pj_achievements,
       isSameAsCurrentCompany =
         (case job of Some j \<Rightarrow> (case pj_isSameAsCurrentCompany j of Some b \<Rightarrow> b | None \<Rightarrow> False)
          | None \<Rightarrow> False) \<rparr>"

text \<open>
  \<^verbatim>\<open>const resumeData: FormData = { ... }\<close>. The current job of the form data has no end
  date and no same-company flag; they are \<open>Undefined\<close> and \<open>False\<close> here.
\<close>

definition resumeData :: "ResumeRow \<Rightarrow> FormData" where
  "resumeData data =
     \<lparr> resume_id = row_id data,
       name = orEmpty (row_name data),
       industry = orEmpty (row_industry data),
       position = orEmpty (row_position data),
       experience = orEmpty (row_experience data),
       skills = orEmpty (row_skills data),
       summary = orEmpty (row_summary data),
       description = orEmpty (row_description data),
       education =
         (let edu = (case current_job data of Some j \<Rightarrow> cj_education j | None \<Rightarrow> None)
          in \<lparr> university = fieldOrEmpty edu e_university,
               faculty = fieldOrEmpty edu e_faculty,
               department = fieldOrEmpty edu e_department,
               graduationDate = fieldOrEmpty edu e_graduationDate \<rparr>),
       currentJob =
         \<lparr> companyName = fieldOrEmpty (current_job data) cj_companyName,
           companyUrl = fieldOrEmpty (current_job data) cj_companyUrl,
           startDate = fieldOrEmpty (current_job data) cj_startDate,
           endDate = Undefined,
           job_position = fieldOrEmpty (current_job data) cj_position,
           title = fieldOrEmpty (current_job data) cj_title,
           achievements = fieldOrEmpty (current_job data) cj_achievements,
           isSameAsCurrentCompany = False \<rparr>,
       previousJobs =
         (case previous_jobs data of Some jobs \<Rightarrow> map previousJobOfJson jobs | None \<Rightarrow> []),
       educationHistories = Some [],
       created_at = row_created_at data,
       updated_at = row_updated_at data,
       user_id = row_user_id data \<rparr>"

text \<open>
  What \<^verbatim>\<open>await supabase.from("resumes").select("*").eq("id", id).single()\<close> yields: the
  promise is rejected, or it resolves to \<open>{ data, error }\<close>.
\<close>

datatype fetch_outcome = Rejected | Resolved "ResumeRow option" "jsstring option"

text \<open>
  The toasts of the hook: login required (default variant); load failed, not found and
  error while loading (all three titled U+30A8 U+30E9 U+30FC, "error", with the
  destructive variant); load complete (default variant).
\<close>

datatype toast = LoginRequired | LoadFailed | NotFound | LoadException | LoadComplete

fun destructive :: "toast \<Rightarrow> bool" where
  "destructive LoginRequired = False"
| "destructive LoadFailed = True"
| "destructive NotFound = True"
| "destructive LoadException = True"
| "destructive LoadComplete = False"

datatype mode = Edit | View

record HookState =
  hasAttemptedFetch :: bool
  isLoading :: bool

text \<open>
  The calls \<open>fetchResumeData\<close> makes on its collaborators, in order.
  \<open>SetIsEditingDeferred\<close> is the \<open>setIsEditing\<close> wrapped in \<open>setTimeout(..., 0)\<close>.
\<close>

datatype effect =
    SetIsLoading bool
  | SetHasAttemptedFetch bool
  | Toast toast
  | Navigate jsstring
  | SetFormData FormData
  | SetIsEditingDeferred bool

definition dashboard :: jsstring where
  "dashboard = ascii ''/dashboard''"

text \<open>
  \<open>ident\<close> is the route parameter \<open>id\<close>, \<open>user\<close> the signed-in user (\<open>None\<close> for null),
  \<open>outcome\<close> the result of the query, consulted only when the query is issued.
\<close>

definition fetchResumeData ::
    "mode \<Rightarrow> jsval \<Rightarrow> HookState \<Rightarrow> jsstring option \<Rightarrow> fetch_outcome \<Rightarrow> effect list" where
  "fetchResumeData mode ident st user outcome =
     (let isDirectEditMode = (mode = Edit)
      in if hasAttemptedFetch st \<or> isLoading st then []
         else if \<not> isDirectEditMode \<or> \<not> truthy ident then []
         else if user = None \<and> mode = Edit then [Toast LoginRequired]
         else [SetIsLoading True] @
              (case outcome of
                 Rejected \<Rightarrow> [Toast LoadException, Navigate dashboard]
               | Resolved data error \<Rightarrow>
                   [SetHasAttemptedFetch True] @
                   (if error \<noteq> None then [Toast LoadFailed, Navigate dashboard]
                    else case data of
                           None \<Rightarrow> [Toast NotFound, Navigate dashboard]
                         | Some row \<Rightarrow>
                             [SetFormData (resumeData row)] @
                             (if isDirectEditMode then [SetIsEditingDeferred True] else []) @
                             [Toast LoadComplete])) @
              [SetIsLoading False])"


section \<open>Auxiliary predicates and example inputs\<close>

text \<open>No interpolated call of a template raises.\<close>

fun subsOk :: "part list \<Rightarrow> bool" where
  "subsOk [] = True"
| "subsOk (Sub e # ps) = ((\<exists>s. e = Inr s) \<and> subsOk ps)"
| "subsOk (p # ps) = subsOk ps"

text \<open>A row with a null current job and a null element in the previous jobs.\<close>

definition sampleRow :: ResumeRow where
  "sampleRow =
     \<lparr> row_id = Str (ascii ''r1''), row_name = Str (ascii ''Ann''), row_industry = Null,
       row_position = Str (ascii ''dev''), row_experience = Str (ascii ''3''), row_skills = Null,
       row_summary = Str [], row_description = Str (ascii ''built things''),
       current_job = None, previous_jobs = Some [None],
       row_created_at = Undefined, row_updated_at = Undefined, row_user_id = Str (ascii ''u1'') \<rparr>"

text \<open>The hook before any fetch.\<close>

definition idleHook :: HookState where
  "idleHook = \<lparr> hasAttemptedFetch = False, isLoading = False \<rparr>"


text \<open>
  Predicates for tracing where a lowercase ASCII word such as \<open>undefined\<close> or \<open>null\<close> can
  come from in a rendered template: \<open>separator\<close> is a non-empty literal chunk without
  lowercase ASCII letters, \<open>freeResult w\<close> holds of an interpolated call whose text does
  not contain \<open>w\<close>, and \<open>cleanParts w\<close> holds of a template in which no interpolation
  contains \<open>w\<close> and every interpolation is followed by a literal chunk.
\<close>

definition lowercase :: "16 word \<Rightarrow> bool" where
  "lowercase c \<longleftrightarrow> 0x61 \<le> c \<and> c \<le> 0x7A"

definition separator :: "jsstring \<Rightarrow> bool" where
  "separator s \<longleftrightarrow> s \<noteq> [] \<and> list_all (\<lambda>c. \<not> lowercase c) s"

definition freeResult :: "jsstring \<Rightarrow> js_error + jsstring \<Rightarrow> bool" where
  "freeResult w e = (case e of Inr s \<Rightarrow> \<not> sublist w s | Inl _ \<Rightarrow> True)"

fun cleanParts :: "jsstring \<Rightarrow> part list \<Rightarrow> bool" where
  "cleanParts w [] = True"
| "cleanParts w [Val v] = (\<not> sublist w (toString v))"
| "cleanParts w [Sub e] = freeResult w e"
| "cleanParts w (Lit s # ps) = (separator s \<and> cleanParts w ps)"
| "cleanParts w (Val v # Lit s # ps) = (\<not> sublist w (toString v) \<and> cleanParts w (Lit s # ps))"
| "cleanParts w (Sub e # Lit s # ps) = (freeResult w e \<and> cleanParts w (Lit s # ps))"
| "cleanParts w (p # q # ps) = False"

definition lowerWord :: "jsstring \<Rightarrow> bool" where
  "lowerWord w \<longleftrightarrow> w \<noteq> [] \<and> list_all lowercase w"

text \<open>
  The title of the additional education section, U+305D U+306E U+4ED6 U+5B66 U+6B74; the
  header is \<^verbatim>\<open>### \<close> followed by it. \<open>boundary w s\<close> is a literal chunk that no
  occurrence of \<open>w\<close> can enter, leave or lie in, and \<open>partsFree w\<close> is \<open>cleanParts w\<close> with
  such chunks for separators.
\<close>

definition additionalEducationTitle :: jsstring where
  "additionalEducationTitle = [0x305D, 0x306E, 0x4ED6, 0x5B66, 0x6B74]"

definition boundary :: "jsstring \<Rightarrow> jsstring \<Rightarrow> bool" where
  "boundary w s \<longleftrightarrow> s \<noteq> [] \<and> hd s \<notin> set w \<and> last s \<notin> set w \<and> \<not> sublist w s"

fun partsFree :: "jsstring \<Rightarrow> part list \<Rightarrow> bool" where
  "partsFree w [] = True"
| "partsFree w [Val v] = (\<not> sublist w (toString v))"
| "partsFree w [Sub e] = freeResult w e"
| "partsFree w (Lit s # ps) = (boundary w s \<and> partsFree w ps)"
| "partsFree w (Val v # Lit s # ps) = (\<not> sublist w (toString v) \<and> partsFree w (Lit s # ps))"
| "partsFree w (Sub e # Lit s # ps) = (freeResult w e \<and> partsFree w (Lit s # ps))"
| "partsFree w (p # q # ps) = False"

text \<open>
  \<open>fieldsFree w data\<close>: no string field that the formatter reads contains \<open>w\<close>.
\<close>

definition textFree :: "jsstring \<Rightarrow> jsval \<Rightarrow> bool" where
  "textFree w v = (case v of Str s \<Rightarrow> \<not> sublist w s | _ \<Rightarrow> True)"

definition jobFree :: "jsstring \<Rightarrow> WorkExperience \<Rightarrow> bool" where
  "jobFree w job \<longleftrightarrow>
     textFree w (companyName job) \<and> textFree w (companyUrl job) \<and> textFree w (startDate job) \<and>
     textFree w (endDate job) \<and> textFree w (job_position job) \<and> textFree w (title job) \<and>
     textFree w (achievements job)"

definition historyFree :: "jsstring \<Rightarrow> EducationHistory \<Rightarrow> bool" where
  "historyFree w edu \<longleftrightarrow>
     textFree w (schoolName edu) \<and> textFree w (eh_graduationDate edu) \<and>
     textFree w (eh_department edu) \<and> textFree w (eh_faculty edu) \<and> textFree w (major edu)"

definition fieldsFree :: "jsstring \<Rightarrow> FormData \<Rightarrow> bool" where
  "fieldsFree w data \<longleftrightarrow>
     textFree w (name data) \<and> textFree w (position data) \<and> textFree w (industry data) \<and>
     textFree w (experience data) \<and> textFree w (summary data) \<and> textFree w (skills data) \<and>
     textFree w (description data) \<and>
     jobFree w (currentJob data) \<and> list_all (jobFree w) (previousJobs data) \<and>
     textFree w (university (education data)) \<and> textFree w (faculty (education data)) \<and>
     textFree w (department (education data)) \<and> textFree w (graduationDate (education data)) \<and>
     (case educationHistories data of Some ehs \<Rightarrow> list_all (historyFree w) ehs | None \<Rightarrow> True)"

text \<open>Example records: every field the empty string; the details header typed into the
  summary; the additional education header typed into the summary; a filled-in record
  with one additional education entry.\<close>

definition emptyRecord :: FormData where
  "emptyRecord =
     \<lparr> resume_id = Undefined, name = Str [], industry = Str [], position = Str [],
       experience = Str [], skills = Str [], summary = Str [], description = Str [],
       education = \<lparr> university = Str [], faculty = Str [], department = Str [],
                     graduationDate = Str [] \<rparr>,
       currentJob = \<lparr> companyName = Str [], companyUrl = Str [], startDate = Str [],
                      endDate = Undefined, job_position = Str [], title = Str [],
                      achievements = Str [], isSameAsCurrentCompany = False \<rparr>,
       previousJobs = [],
       educationHistories = Some [],
       created_at = Undefined, updated_at = Undefined, user_id = Undefined \<rparr>"

definition markerInSummary :: FormData where
  "markerInSummary =
     emptyRecord \<lparr> summary := Str (ascii ''## '' @ detailsLabel), description := Str (ascii ''D'') \<rparr>"

definition headerInSummary :: FormData where
  "headerInSummary = emptyRecord \<lparr> summary := Str additionalEducationHeader \<rparr>"

definition sampleRecord :: FormData where
  "sampleRecord =
     emptyRecord \<lparr> name := Str (ascii ''Ann''), description := Str (ascii '' shipped it '' @ nl),
       educationHistories := Some [\<lparr> schoolName = Str (ascii ''Night school''),
         eh_graduationDate = Str (ascii ''2019-03''), eh_department = Undefined,
         eh_faculty = Str [], major = Null \<rparr>] \<rparr>"

text \<open>The placeholder prompt typed as the description; a record with missing fields.\<close>

definition placeholderAsDescription :: FormData where
  "placeholderAsDescription = emptyRecord \<lparr> description := Str placeholderPrompt \<rparr>"

definition missingRecord :: FormData where
  "missingRecord =
     emptyRecord \<lparr> name := Undefined, position := Null, description := Undefined,
       currentJob := (currentJob emptyRecord) \<lparr> companyUrl := Undefined, startDate := Null \<rparr>,
       educationHistories := None \<rparr>"


text \<open>A row whose summary holds the text of an additional education section.\<close>

definition injectedRow :: ResumeRow where
  "injectedRow =
     sampleRow \<lparr> row_summary :=
       Str (additionalEducationHeader @ nl @ nl @ ascii ''### Night school'') \<rparr>"


section \<open>Properties of the parser\<close>

lemma bind_err_Inr [simp]: "bind_err (Inr x) f = f x"
  by (simp add: bind_err_def)

lemma bind_err_Inl [simp]: "bind_err (Inl e) f = Inl e"
  by (simp add: bind_err_def)

lemma parseTemplateContent_total: "\<exists>d. parseTemplateContent content = Inr d"
  by (cases "matchDetails content") (simp_all add: parseTemplateContent_def)

lemma detailsMarker_code: "detailsMarker = [0x23, 0x23, 0x20, 0x8077, 0x52D9, 0x8A73, 0x7D30, 0x0A, 0x0A]"
  by (simp add: detailsMarker_def detailsLabel_def ascii_def nl_def)

lemma matchDetails_None_iff: "matchDetails s = None \<longleftrightarrow> \<not> sublist detailsMarker s"
proof (induction s)
  case Nil
  show ?case by (simp add: detailsMarker_code)
next
  case (Cons c cs)
  show ?case using Cons.IH by (simp add: sublist_Cons_right)
qed

lemma matchDetails_first:
  assumes "\<not> sublist detailsMarker pre"
  shows "matchDetails (pre @ detailsMarker @ rest) = Some rest"
  using assms
proof (induction pre)
  case Nil
  show ?case by (simp add: detailsMarker_code)
next
  case (Cons c pre)
  have np: "\<not> prefix detailsMarker (c # pre)" and ns: "\<not> sublist detailsMarker pre"
    using Cons.prems by (auto simp: sublist_Cons_right)
  have "\<not> prefix detailsMarker ((c # pre) @ detailsMarker @ rest)"
  proof
    assume "prefix detailsMarker ((c # pre) @ detailsMarker @ rest)"
    then have "prefix detailsMarker (c # pre)
        \<or> (\<exists>us. detailsMarker = (c # pre) @ us \<and> prefix us (detailsMarker @ rest))"
      by (simp only: prefix_append)
    then obtain us where us: "detailsMarker = (c # pre) @ us" "prefix us (detailsMarker @ rest)"
      using np by blast
    from us np show False
      by (auto simp: detailsMarker_code Cons_eq_append_conv append_eq_Cons_conv)
  qed
  then show ?case using Cons.IH [OF ns] by simp
qed

text \<open>
  C2, as the code has it: when the details header occurs nowhere in the input,
  \<open>parseTemplateContent\<close> returns the input itself, unchanged and untrimmed.
\<close>

theorem parse_fallback:
  "\<not> sublist detailsMarker content \<Longrightarrow> parseTemplateContent content = Inr content"
proof -
  assume "\<not> sublist detailsMarker content"
  then have "matchDetails content = None" by (simp add: matchDetails_None_iff)
  then show ?thesis by (simp add: parseTemplateContent_def)
qed

theorem parse_fallback_witness:
  "\<not> sublist detailsMarker (ascii ''random text with no headers'')
   \<and> parseTemplateContent (ascii ''random text with no headers'')
       = Inr (ascii ''random text with no headers'')"
proof -
  have h: "\<not> sublist detailsMarker (ascii ''random text with no headers'')"
    by (simp add: detailsMarker_code ascii_def sublist_Cons_right)
  show ?thesis using h parse_fallback [OF h] by simp
qed

text \<open>
  C2 as stated fails: the input \<open>" a "\<close> has no details header and comes back with its
  leading and trailing space, which \<open>trim\<close> would have removed.
\<close>

theorem parse_fallback_untrimmed:
  "\<not> sublist detailsMarker (ascii '' a '')
   \<and> parseTemplateContent (ascii '' a '') = Inr (ascii '' a '')
   \<and> parseTemplateContent (ascii '' a '') \<noteq> Inr (trim (ascii '' a ''))"
  by (simp add: parseTemplateContent_def detailsMarker_code ascii_def trim_def isWhiteSpace_def
      sublist_Cons_right)


section \<open>Properties of formatDate\<close>

lemma replaceFirst_absent: "p \<notin> set d \<Longrightarrow> replaceFirst p r d = d"
  by (induction d) auto

lemma replaceFirst_first: "p \<notin> set a \<Longrightarrow> replaceFirst p r (a @ p # b) = a @ r @ b"
  by (induction a) auto

text \<open>
  C6: \<open>formatDate\<close> maps the empty string to the empty string; on a non-empty string it
  replaces the first \<open>-\<close> (code unit 0x2D) by the year marker and appends the month
  marker, and a string without \<open>-\<close> passes through with the month marker appended. It
  never fails on a string.
\<close>

theorem formatDate_renders:
  "formatDate (Str []) = Inr []
   \<and> (0x2D \<notin> set a \<longrightarrow>
        formatDate (Str (a @ 0x2D # b)) = Inr (a @ yearMarker @ b @ monthMarker))
   \<and> (d \<noteq> [] \<and> 0x2D \<notin> set d \<longrightarrow> formatDate (Str d) = Inr (d @ monthMarker))"
  by (simp add: formatDate_def replaceFirst_absent replaceFirst_first)

theorem formatDate_renders_witness:
  "formatDate (Str (ascii ''2024-04'')) = Inr (ascii ''2024'' @ [0x5E74] @ ascii ''04'' @ [0x6708])
   \<and> formatDate (Str (ascii ''soon'')) = Inr (ascii ''soon'' @ [0x6708])"
  using formatDate_renders [of "ascii ''2024''" "ascii ''04''" "ascii ''soon''"]
  by (simp add: ascii_def yearMarker_def monthMarker_def)


section \<open>Totality of the formatter\<close>

lemma formatDate_total: "\<exists>s. formatDate v = Inr s"
  by (cases v) (simp_all add: formatDate_def)

lemma template_append:
  "template (ps @ qs) = bind_err (template ps) (\<lambda>a. bind_err (template qs) (\<lambda>b. Inr (a @ b)))"
proof (induction ps rule: template.induct)
  case 1
  show ?case by (cases "template qs") (simp_all add: bind_err_def)
next
  case (2 s ps)
  then show ?case by (simp add: bind_err_def split: sum.splits)
next
  case (3 v ps)
  then show ?case by (simp add: bind_err_def split: sum.splits)
next
  case (4 e ps)
  then show ?case by (simp add: bind_err_def split: sum.splits)
qed

lemma template_total: "subsOk ps \<Longrightarrow> \<exists>doc. template ps = Inr doc"
  by (induction ps rule: subsOk.induct) (auto simp: bind_err_def)

lemma mapE_total:
  "(\<And>x. \<exists>y. f x = Inr y) \<Longrightarrow> \<exists>ys. mapE f xs = Inr ys \<and> length ys = length xs"
proof (induction xs)
  case Nil
  show ?case by simp
next
  case (Cons x xs)
  from Cons.prems obtain y where y: "f x = Inr y" by blast
  from Cons.IH Cons.prems obtain ys where "mapE f xs = Inr ys" "length ys = length xs" by blast
  with y show ?case by (simp add: bind_err_def)
qed

lemma urlLine_total:
  "\<exists>s. (if truthy u then template [Lit a, Val u, Lit b] else Inr []) = Inr s"
  by (simp add: bind_err_def)

lemma educationHistoryEntry_total: "\<exists>s. educationHistoryEntry edu = Inr s"
  unfolding educationHistoryEntry_def
  by (rule template_total) (simp add: formatDate_total bind_err_def)

lemma previousJobEntry_total: "\<exists>s. previousJobEntry job = Inr s"
  unfolding previousJobEntry_def
  by (rule template_total) (simp add: formatDate_total bind_err_def)

lemma educationHistoriesText_total: "\<exists>s. educationHistoriesText data = Inr s"
proof (cases "educationHistories data")
  case None
  then show ?thesis by (simp add: educationHistoriesText_def)
next
  case (Some ehs)
  obtain es where "mapE educationHistoryEntry ehs = Inr es"
    using mapE_total [of educationHistoryEntry ehs] educationHistoryEntry_total by blast
  with Some show ?thesis by (simp add: educationHistoriesText_def bind_err_def)
qed

lemma previousJobsText_total:
  "\<exists>s. bind_err (mapE previousJobEntry jobs) (\<lambda>js. Inr (join (nl @ nl) js)) = Inr s"
proof -
  obtain js where "mapE previousJobEntry jobs = Inr js"
    using mapE_total [of previousJobEntry jobs] previousJobEntry_total by blast
  then show ?thesis by (simp add: bind_err_def)
qed

lemma headParts_total: "\<exists>pre. template (headParts data) = Inr pre"
  unfolding headParts_def
  by (rule template_total) (simp add: formatDate_total previousJobsText_total)

lemma tailParts_total: "\<exists>post. template (tailParts data) = Inr post"
  unfolding tailParts_def by (rule template_total) simp

lemma additionalEducation_total: "\<exists>s. additionalEducation joined = Inr s"
  by (simp add: additionalEducation_def bind_err_def)

lemma formatTemplateContent_shape:
  assumes "educationHistoriesText data = Inr joined"
      and "additionalEducation joined = Inr sec"
      and "template (headParts data) = Inr pre"
      and "template (tailParts data) = Inr post"
  shows "formatTemplateContent data = Inr (pre @ sec @ post)"
  using assms by (simp add: formatTemplateContent_def template_append bind_err_def)

lemma formatTemplateContent_total: "\<exists>doc. formatTemplateContent data = Inr doc"
proof -
  obtain joined where j: "educationHistoriesText data = Inr joined"
    using educationHistoriesText_total by blast
  obtain sec where s: "additionalEducation joined = Inr sec"
    using additionalEducation_total by blast
  obtain pre where hp: "template (headParts data) = Inr pre" using headParts_total by blast
  obtain post where tp: "template (tailParts data) = Inr post" using tailParts_total by blast
  show ?thesis using formatTemplateContent_shape [OF j s hp tp] by blast
qed

text \<open>
  C5: \<open>formatTemplateContent\<close> and \<open>parseTemplateContent\<close> never throw. For every record
  (whatever fields are empty, \<open>undefined\<close> or \<open>null\<close>, and whether the additional education
  list is present or not) and for every input string, both return a string: the
  \<open>TypeError\<close> branches of the model are never taken.
\<close>

theorem format_and_parse_never_throw:
  "(\<exists>doc. formatTemplateContent data = Inr doc) \<and> (\<exists>d. parseTemplateContent content = Inr d)"
  using formatTemplateContent_total parseTemplateContent_total by blast


section \<open>The editor handlers\<close>

text \<open>
  C4: for every displayed content, \<open>handleFinishEdit\<close> first calls \<open>onEdit\<close> with
  \<open>parseTemplateContent\<close> of the displayed content and only then calls
  \<open>onFinishEditing\<close>; these are its only two calls.
\<close>

theorem finish_edit_order:
  "\<exists>parsed. parseTemplateContent (editorContent st) = Inr parsed
     \<and> handleFinishEdit st = Inr [OnEdit parsed, OnFinishEditing]"
proof -
  obtain parsed where "parseTemplateContent (editorContent st) = Inr parsed"
    using parseTemplateContent_total by blast
  then show ?thesis by (simp add: handleFinishEdit_def)
qed

text \<open>
  The handler of the \<open>HtmlRichEditor\<close> component suppresses redundant calls: empty or
  unchanged content is a no-op, new content while editing is propagated once, and a
  second call with the same content in the resulting state propagates nothing.
\<close>

lemma handleEditorChange_noop:
  "content = [] \<or> content = editorContent st \<Longrightarrow> handleEditorChange content st = (st, [])"
  by (auto simp: handleEditorChange_def)

lemma handleEditorChange_propagates:
  assumes "content \<noteq> []" "content \<noteq> editorContent st" "internalIsEditing st"
  shows "\<exists>parsed. parseTemplateContent content = Inr parsed
     \<and> handleEditorChange content st = (st\<lparr>editorContent := content\<rparr>, [OnEdit parsed])"
proof -
  obtain parsed where "parseTemplateContent content = Inr parsed"
    using parseTemplateContent_total by blast
  with assms show ?thesis by (simp add: handleEditorChange_def)
qed

lemma handleEditorChange_twice:
  "snd (handleEditorChange content (fst (handleEditorChange content st))) = []"
  by (auto simp: handleEditorChange_def Let_def split: sum.splits)

text \<open>
  C3 fails on the handler of \<^verbatim>\<open>src/components/ResumeEditor.tsx\<close>, which has neither
  guard: called while editing with the content \<open>"x"\<close> that is already displayed it calls
  \<open>onEdit("x")\<close> again, and called with the empty string it clears the displayed content
  and calls \<open>onEdit("")\<close>.
\<close>

theorem handleEditorChange_tsx_repeats:
  "handleEditorChange_tsx (ascii ''x'') \<lparr>editorContent = ascii ''x'', internalIsEditing = True\<rparr>
     = Inr (\<lparr>editorContent = ascii ''x'', internalIsEditing = True\<rparr>, [OnEdit (ascii ''x'')])
   \<and> handleEditorChange_tsx [] \<lparr>editorContent = ascii ''x'', internalIsEditing = True\<rparr>
     = Inr (\<lparr>editorContent = [], internalIsEditing = True\<rparr>, [OnEdit []])"
  by (simp add: handleEditorChange_tsx_def parseTemplateContent_def ascii_def detailsMarker_code)


section \<open>The direct-edit fetch\<close>

text \<open>
  C9: when the query is issued (direct-edit mode with an identifier, a signed-in user, no
  fetch attempted or running) and it is rejected, resolves with an error, or resolves
  with neither error nor record, \<open>fetchResumeData\<close> shows a destructive toast, then
  navigates to the dashboard, then clears the loading flag, and never calls
  \<open>setFormData\<close>.
\<close>

theorem fetch_failure_aborts:
  assumes "\<not> hasAttemptedFetch st" and "\<not> isLoading st" and "truthy ident" and "user = Some u"
      and "outcome = Rejected \<or> outcome = Resolved d (Some e) \<or> outcome = Resolved None None"
  shows "(\<exists>t pre. destructive t \<and> set pre \<subseteq> {SetIsLoading True, SetHasAttemptedFetch True}
           \<and> fetchResumeData Edit ident st user outcome
               = pre @ [Toast t, Navigate dashboard, SetIsLoading False])
         \<and> (\<forall>fd. SetFormData fd \<notin> set (fetchResumeData Edit ident st user outcome))"
proof -
  from assms(5) consider (rej) "outcome = Rejected" | (err) "outcome = Resolved d (Some e)"
    | (nodata) "outcome = Resolved None None" by blast
  then show ?thesis
  proof cases
    case rej
    have "fetchResumeData Edit ident st user outcome
        = [SetIsLoading True] @ [Toast LoadException, Navigate dashboard, SetIsLoading False]"
      using assms(1-4) rej by (simp add: fetchResumeData_def)
    moreover have "destructive LoadException" by simp
    ultimately show ?thesis by fastforce
  next
    case err
    have "fetchResumeData Edit ident st user outcome
        = [SetIsLoading True, SetHasAttemptedFetch True]
          @ [Toast LoadFailed, Navigate dashboard, SetIsLoading False]"
      using assms(1-4) err by (simp add: fetchResumeData_def)
    moreover have "destructive LoadFailed" by simp
    ultimately show ?thesis by fastforce
  next
    case nodata
    have "fetchResumeData Edit ident st user outcome
        = [SetIsLoading True, SetHasAttemptedFetch True]
          @ [Toast NotFound, Navigate dashboard, SetIsLoading False]"
      using assms(1-4) nodata by (simp add: fetchResumeData_def)
    moreover have "destructive NotFound" by simp
    ultimately show ?thesis by fastforce
  qed
qed

theorem fetch_failure_aborts_witness:
  "(\<exists>t pre. destructive t \<and> set pre \<subseteq> {SetIsLoading True, SetHasAttemptedFetch True}
      \<and> fetchResumeData Edit (Str (ascii ''r1'')) idleHook (Some (ascii ''u1''))
            (Resolved None (Some (ascii ''timeout'')))
          = pre @ [Toast t, Navigate dashboard, SetIsLoading False])
   \<and> (\<forall>fd. SetFormData fd \<notin> set (fetchResumeData Edit (Str (ascii ''r1'')) idleHook
                 (Some (ascii ''u1'')) (Resolved None (Some (ascii ''timeout'')))))
   \<and> (\<exists>t pre. destructive t \<and> set pre \<subseteq> {SetIsLoading True, SetHasAttemptedFetch True}
      \<and> fetchResumeData Edit (Str (ascii ''r1'')) idleHook (Some (ascii ''u1''))
            (Resolved None None)
          = pre @ [Toast t, Navigate dashboard, SetIsLoading False])
   \<and> (\<forall>fd. SetFormData fd \<notin> set (fetchResumeData Edit (Str (ascii ''r1'')) idleHook
                 (Some (ascii ''u1'')) (Resolved None None)))"
proof -
  have g: "\<not> hasAttemptedFetch idleHook" "\<not> isLoading idleHook" "truthy (Str (ascii ''r1''))"
    by (simp_all add: idleHook_def ascii_def)
  have u: "Some (ascii ''u1'') = Some (ascii ''u1'')" by simp
  have failed: "Resolved None (Some (ascii ''timeout'')) = Rejected
      \<or> Resolved None (Some (ascii ''timeout'')) = Resolved None (Some (ascii ''timeout''))
      \<or> Resolved None (Some (ascii ''timeout'')) = Resolved None None" by simp
  have missing: "Resolved None None = Rejected
      \<or> Resolved None None = Resolved None (Some (ascii ''timeout''))
      \<or> Resolved None None = Resolved None None" by simp
  show ?thesis
    using fetch_failure_aborts [OF g u failed] fetch_failure_aborts [OF g u missing] by blast
qed

lemma SetFormData_resumeData:
  "SetFormData fd \<in> set (fetchResumeData mode ident st user outcome) \<Longrightarrow> \<exists>row. fd = resumeData row"
  by (auto simp: fetchResumeData_def Let_def split: if_splits fetch_outcome.splits option.splits)

lemma resumeData_no_section:
  "\<exists>pre post. template (headParts (resumeData row)) = Inr pre
     \<and> template (tailParts (resumeData row)) = Inr post
     \<and> formatTemplateContent (resumeData row) = Inr (pre @ post)"
proof -
  have j: "educationHistoriesText (resumeData row) = Inr []"
    by (simp add: educationHistoriesText_def resumeData_def)
  have s: "additionalEducation [] = Inr []" by (simp add: additionalEducation_def)
  obtain pre where hp: "template (headParts (resumeData row)) = Inr pre"
    using headParts_total by blast
  obtain post where tp: "template (tailParts (resumeData row)) = Inr post"
    using tailParts_total by blast
  show ?thesis using formatTemplateContent_shape [OF j s hp tp] hp tp by simp
qed


section \<open>Round trip of the description\<close>

lemmas format_eval = formatTemplateContent_def educationHistoriesText_def educationHistoryEntry_def
  previousJobEntry_def headParts_def tailParts_def additionalEducation_def
  additionalEducationHeader_def placeholderPrompt_def formatDate_def yearMarker_def
  monthMarker_def detailsLabel_def jsOr_def ascii_def nl_def

lemma tailParts_text:
  "template (tailParts data)
     = Inr (nl @ nl @ detailsMarker @ toString (jsOr (description data) (Str placeholderPrompt)))"
  by (simp add: tailParts_def detailsMarker_def)

lemma formatTemplateContent_ends:
  "\<exists>pre. formatTemplateContent data
     = Inr (pre @ detailsMarker @ toString (jsOr (description data) (Str placeholderPrompt)))"
proof -
  obtain joined where j: "educationHistoriesText data = Inr joined"
    using educationHistoriesText_total by blast
  obtain sec where s: "additionalEducation joined = Inr sec"
    using additionalEducation_total by blast
  obtain pre where hp: "template (headParts data) = Inr pre" using headParts_total by blast
  have "formatTemplateContent data = Inr ((pre @ sec @ nl @ nl) @ detailsMarker
      @ toString (jsOr (description data) (Str placeholderPrompt)))"
    using formatTemplateContent_shape [OF j s hp tailParts_text] by simp
  then show ?thesis by blast
qed

text \<open>
  C1, as the code has it: for a record with a non-empty description \<open>d\<close>, parsing the
  formatted document gives \<open>d.trim()\<close> provided the details header does not already occur
  in the document before its final details section (the parser takes the leftmost
  header).
\<close>

theorem roundtrip_description:
  assumes "description data = Str d" and "d \<noteq> []"
      and "formatTemplateContent data = Inr doc"
      and "\<not> sublist detailsMarker (take (length doc - length (detailsMarker @ d)) doc)"
  shows "parseTemplateContent doc = Inr (trim d)"
proof -
  obtain pre where "formatTemplateContent data
      = Inr (pre @ detailsMarker @ toString (jsOr (description data) (Str placeholderPrompt)))"
    using formatTemplateContent_ends by blast
  with assms(1-3) have doc: "doc = pre @ detailsMarker @ d" by (simp add: jsOr_def)
  then have "take (length doc - length (detailsMarker @ d)) doc = pre" by simp
  with assms(4) have "\<not> sublist detailsMarker pre" by simp
  then have "matchDetails doc = Some d" unfolding doc by (rule matchDetails_first)
  then show ?thesis by (simp add: parseTemplateContent_def)
qed

theorem roundtrip_description_witness:
  "description sampleRecord = Str (ascii '' shipped it '' @ nl)
   \<and> bind_err (formatTemplateContent sampleRecord) parseTemplateContent = Inr (ascii ''shipped it'')
   \<and> trim (ascii '' shipped it '' @ nl) = ascii ''shipped it''"
proof -
  obtain doc where f: "formatTemplateContent sampleRecord = Inr doc"
    using formatTemplateContent_total by blast
  have d: "description sampleRecord = Str (ascii '' shipped it '' @ nl)"
    by (simp add: sampleRecord_def)
  have ne: "ascii '' shipped it '' @ nl \<noteq> []" by (simp add: nl_def)
  have h: "\<not> sublist detailsMarker
      (take (length doc - length (detailsMarker @ ascii '' shipped it '' @ nl)) doc)"
    using f [symmetric]
    by (simp add: sampleRecord_def emptyRecord_def format_eval detailsMarker_code sublist_Cons_right)
  have t: "trim (ascii '' shipped it '' @ nl) = ascii ''shipped it''"
    by (simp add: trim_def isWhiteSpace_def ascii_def nl_def)
  show ?thesis using roundtrip_description [OF d ne f h] d f t by simp
qed

text \<open>
  C1 as stated, with no condition on the other fields, fails: with the summary
  \<^verbatim>\<open>## <U+8077 U+52D9 U+8A73 U+7D30>\<close> the two newlines that the template puts after the
  summary complete a details header, the parser matches there, and the result is the
  rest of the document from the skills header (\<^verbatim>\<open>## <U+30B9 U+30AD U+30EB>\<close>) on, not the
  description \<open>D\<close>.
\<close>

theorem roundtrip_broken_by_summary:
  "description markerInSummary = Str (ascii ''D'')
   \<and> bind_err (formatTemplateContent markerInSummary) parseTemplateContent
       \<noteq> Inr (trim (ascii ''D''))
   \<and> map_sum id (prefix (ascii ''## '' @ [0x30B9, 0x30AD, 0x30EB]))
        (bind_err (formatTemplateContent markerInSummary) parseTemplateContent) = Inr True"
  by (simp add: markerInSummary_def emptyRecord_def format_eval parseTemplateContent_def
      detailsMarker_code trim_def isWhiteSpace_def)


section \<open>The additional education section\<close>

lemma template_Lit_prefix: "template (Lit s # ps) = Inr d \<Longrightarrow> prefix s d"
  by (cases "template ps") auto

lemma educationHistoryEntry_nonempty: "educationHistoryEntry edu = Inr s \<Longrightarrow> s \<noteq> []"
proof -
  assume "educationHistoryEntry edu = Inr s"
  then have "prefix (ascii ''### '') s"
    unfolding educationHistoryEntry_def by (rule template_Lit_prefix)
  then show ?thesis by (auto simp: ascii_def)
qed

lemma mapE_Cons_Inr:
  "mapE f (x # xs) = Inr ys \<Longrightarrow> \<exists>y ys'. ys = y # ys' \<and> f x = Inr y \<and> mapE f xs = Inr ys'"
  by (auto simp: bind_err_def split: sum.splits)

lemma join_Cons_nonempty: "x \<noteq> [] \<Longrightarrow> join sep (x # xs) \<noteq> []"
  by (cases xs) simp_all


section \<open>Missing fields never render as undefined or null\<close>

lemma sublist_skip_char:
  assumes "c \<notin> set w"
  shows "sublist w (xs @ c # ys) \<longleftrightarrow> sublist w xs \<or> sublist w ys"
proof
  assume "sublist w (xs @ c # ys)"
  then consider "sublist w xs" | "sublist w (c # ys)"
    | w1 w2 where "w = w1 @ w2" "suffix w1 xs" "prefix w2 (c # ys)"
    unfolding sublist_append by blast
  then show "sublist w xs \<or> sublist w ys"
  proof cases
    case 1
    then show ?thesis by simp
  next
    case 2
    then have "prefix w (c # ys) \<or> sublist w ys" by (simp add: sublist_Cons_right)
    with assms show ?thesis by (cases w) auto
  next
    case 3
    with assms show ?thesis by (cases w2) auto
  qed
next
  assume "sublist w xs \<or> sublist w ys"
  then show "sublist w (xs @ c # ys)"
    by (auto simp: sublist_append sublist_Cons_right)
qed

lemma sublist_skip_lit: "set s \<inter> set w = {} \<Longrightarrow> sublist w (s @ ys) \<longleftrightarrow> sublist w ys"
proof (induction s)
  case Nil
  show ?case by simp
next
  case (Cons c s)
  then have "c \<notin> set w" and IH: "sublist w (s @ ys) \<longleftrightarrow> sublist w ys" by auto
  from sublist_skip_char [OF \<open>c \<notin> set w\<close>, of "[]" "s @ ys"] IH
  show ?case by (cases w) auto
qed

lemma sublist_sep:
  assumes "set s \<inter> set w = {}" and "s \<noteq> []"
  shows "sublist w (xs @ s @ ys) \<longleftrightarrow> sublist w xs \<or> sublist w ys"
proof (cases s)
  case Nil
  with assms show ?thesis by simp
next
  case (Cons c s')
  with assms have c: "c \<notin> set w" and s': "set s' \<inter> set w = {}" by auto
  show ?thesis unfolding Cons using sublist_skip_char [OF c] sublist_skip_lit [OF s'] by simp
qed

lemma separator_disjoint: "lowerWord w \<Longrightarrow> separator s \<Longrightarrow> set s \<inter> set w = {}"
  by (auto simp: lowerWord_def separator_def list_all_iff)

lemma separator_free: "lowerWord w \<Longrightarrow> list_all (\<lambda>c. \<not> lowercase c) s \<Longrightarrow> \<not> sublist w s"
proof
  assume w: "lowerWord w" and s: "list_all (\<lambda>c. \<not> lowercase c) s" and "sublist w s"
  then have "set w \<subseteq> set s" by (auto simp: sublist_def)
  moreover from w obtain c where "c \<in> set w" "lowercase c"
    by (cases w) (auto simp: lowerWord_def)
  ultimately show False using s by (auto simp: list_all_iff)
qed

lemma cleanParts_free:
  "lowerWord w \<Longrightarrow> cleanParts w ps \<Longrightarrow> template ps = Inr doc \<Longrightarrow> \<not> sublist w doc"
proof (induction w ps arbitrary: doc rule: cleanParts.induct)
  case (1 w)
  then show ?case by (auto simp: lowerWord_def)
next
  case (2 w v)
  then show ?case by simp
next
  case (3 w e)
  then show ?case by (cases e) (auto simp: freeResult_def)
next
  case (4 w s ps)
  from "4.prems" obtain r where r: "template ps = Inr r" "doc = s @ r"
    by (cases "template ps") auto
  from "4.prems" have w: "lowerWord w" and sep: "separator s" and "cleanParts w ps" by auto
  with "4.IH" r have "\<not> sublist w r" by blast
  then show ?case
    using sublist_skip_lit [OF separator_disjoint [OF w sep]] r by simp
next
  case (5 w v s ps)
  from "5.prems" obtain r where r: "template (Lit s # ps) = Inr r" "doc = toString v @ r"
    by (cases "template (Lit s # ps)") auto
  then obtain r' where r': "r = s @ r'" by (cases "template ps") auto
  from "5.prems" have w: "lowerWord w" and v: "\<not> sublist w (toString v)"
    and c: "cleanParts w (Lit s # ps)" by auto
  with "5.IH" r have nr: "\<not> sublist w r" by blast
  from c have sep: "separator s" by simp
  have dis: "set s \<inter> set w = {}" by (rule separator_disjoint [OF w sep])
  from nr have "\<not> sublist w r'" unfolding r' using sublist_skip_lit [OF dis] by simp
  with v show ?case
    unfolding r(2) r' using sublist_sep [OF dis, of "toString v" r'] sep
    by (simp add: separator_def)
next
  case (6 w e s ps)
  from "6.prems" obtain x r where x: "e = Inr x" and r: "template (Lit s # ps) = Inr r" "doc = x @ r"
    by (cases e; cases "template (Lit s # ps)") auto
  then obtain r' where r': "r = s @ r'" by (cases "template ps") auto
  from "6.prems" x have w: "lowerWord w" and v: "\<not> sublist w x" and c: "cleanParts w (Lit s # ps)"
    by (auto simp: freeResult_def)
  with "6.IH" r have nr: "\<not> sublist w r" by blast
  from c have sep: "separator s" by simp
  have dis: "set s \<inter> set w = {}" by (rule separator_disjoint [OF w sep])
  from nr have "\<not> sublist w r'" unfolding r' using sublist_skip_lit [OF dis] by simp
  with v show ?case
    unfolding r(2) r' using sublist_sep [OF dis, of x r'] sep
    by (simp add: separator_def)
qed simp_all

lemma textFree_orEmpty [simp]:
  "lowerWord w \<Longrightarrow> textFree w v \<Longrightarrow> \<not> sublist w (toString (jsOr v (Str [])))"
  by (cases v) (auto simp: textFree_def jsOr_def lowerWord_def)

lemma textFree_truthy [simp]: "truthy v \<Longrightarrow> textFree w v \<Longrightarrow> \<not> sublist w (toString v)"
  by (cases v) (auto simp: textFree_def)

lemma replaceFirst_free:
  assumes "\<not> sublist w d" and "y \<notin> set w"
  shows "\<not> sublist w (replaceFirst p [y] d)"
proof (cases "p \<in> set d")
  case False
  with assms show ?thesis by (simp add: replaceFirst_absent)
next
  case True
  then obtain a b where d: "d = a @ p # b" "p \<notin> set a" by (auto dest: split_list_first)
  have "\<not> sublist w a" and "\<not> sublist w b"
    using assms(1) unfolding d(1) by (auto simp: sublist_append sublist_Cons_right)
  then show ?thesis
    unfolding d(1) using d(2) sublist_skip_char [OF assms(2), of a b]
    by (simp add: replaceFirst_first)
qed

lemma lowerWord_not_lowercase: "lowerWord w \<Longrightarrow> \<not> lowercase c \<Longrightarrow> c \<notin> set w"
  by (auto simp: lowerWord_def list_all_iff)

lemma formatDate_free [simp]:
  assumes "lowerWord w" and "textFree w v"
  shows "freeResult w (formatDate v)"
proof (cases "truthy v")
  case False
  with assms show ?thesis by (simp add: formatDate_def freeResult_def lowerWord_def)
next
  case True
  then obtain d where v: "v = Str d" by (cases v) auto
  have y: "0x5E74 \<notin> set w"
    by (rule lowerWord_not_lowercase [OF assms(1)]) (simp add: lowercase_def)
  have m: "0x6708 \<notin> set w"
    by (rule lowerWord_not_lowercase [OF assms(1)]) (simp add: lowercase_def)
  from assms(2) v have "\<not> sublist w d" by (simp add: textFree_def)
  then have "\<not> sublist w (replaceFirst 0x2D [0x5E74] d)" using y by (rule replaceFirst_free)
  then have "\<not> sublist w (replaceFirst 0x2D [0x5E74] d @ [0x6708])"
    using sublist_skip_char [OF m, of "replaceFirst 0x2D [0x5E74] d" "[]"] assms(1)
    by (simp add: lowerWord_def)
  with True v show ?thesis
    by (simp add: formatDate_def freeResult_def yearMarker_def monthMarker_def)
qed

lemma freeResult_template: "lowerWord w \<Longrightarrow> cleanParts w ps \<Longrightarrow> freeResult w (template ps)"
  by (cases "template ps") (auto simp: freeResult_def dest: cleanParts_free)

lemma freeResult_Nil [simp]: "lowerWord w \<Longrightarrow> freeResult w (Inr [])"
  by (simp add: freeResult_def lowerWord_def)

lemmas lit_eval = separator_def lowercase_def ascii_def nl_def

lemma join_free:
  "lowerWord w \<Longrightarrow> list_all (\<lambda>x. \<not> sublist w x) xs \<Longrightarrow> \<not> sublist w (join (nl @ nl) xs)"
proof (induction "nl @ nl" xs rule: join.induct)
  case 1
  then show ?case by (simp add: lowerWord_def)
next
  case (2 x)
  then show ?case by simp
next
  case (3 x y ys)
  have sep: "separator (nl @ nl)" by (simp add: lit_eval)
  have dis: "set (nl @ nl) \<inter> set w = {}" by (rule separator_disjoint [OF "3.prems"(1) sep])
  have ne: "nl @ nl \<noteq> []" by (simp add: nl_def)
  from 3 show ?case using sublist_sep [OF dis ne, of x "join (nl @ nl) (y # ys)"] by simp
qed

lemma mapE_free:
  assumes "\<And>x. P x \<Longrightarrow> freeResult w (f x)"
  shows "list_all P xs \<Longrightarrow> mapE f xs = Inr ys \<Longrightarrow> list_all (\<lambda>y. \<not> sublist w y) ys"
proof (induction xs arbitrary: ys)
  case Nil
  then show ?case by auto
next
  case (Cons x xs)
  from mapE_Cons_Inr [OF Cons.prems(2)] obtain y ys'
    where y: "ys = y # ys'" "f x = Inr y" "mapE f xs = Inr ys'" by blast
  from Cons.prems(1) have "P x" "list_all P xs" by auto
  with assms [of x] y Cons.IH [of ys'] show ?case by (simp add: freeResult_def)
qed

lemma optLine3_free:
  assumes "lowerWord w" and "separator a" and "separator b" and "textFree w v"
  shows "freeResult w (if truthy v then template [Lit a, Val v, Lit b] else Inr [])"
proof (cases "truthy v")
  case True
  with assms have "cleanParts w [Lit a, Val v, Lit b]" by simp
  with True assms(1) show ?thesis by (simp only: if_True freeResult_template)
next
  case False
  with assms(1) show ?thesis by simp
qed

lemma optLine2_free:
  assumes "lowerWord w" and "separator a" and "textFree w v"
  shows "freeResult w (if truthy v then template [Lit a, Val v] else Inr [])"
proof (cases "truthy v")
  case True
  with assms have "cleanParts w [Lit a, Val v]" by simp
  with True assms(1) show ?thesis by (simp only: if_True freeResult_template)
next
  case False
  with assms(1) show ?thesis by simp
qed

lemma previousJobEntry_free: "lowerWord w \<Longrightarrow> jobFree w job \<Longrightarrow> freeResult w (previousJobEntry job)"
  unfolding previousJobEntry_def
  by (rule freeResult_template)
     (simp_all add: jobFree_def optLine3_free lit_eval del: template.simps)

lemma educationHistoryEntry_free:
  "lowerWord w \<Longrightarrow> historyFree w edu \<Longrightarrow> freeResult w (educationHistoryEntry edu)"
  unfolding educationHistoryEntry_def
  by (rule freeResult_template)
     (simp_all add: historyFree_def optLine3_free optLine2_free lit_eval del: template.simps)

lemma previousJobsText_free:
  assumes "lowerWord w" and "list_all (jobFree w) jobs"
  shows "freeResult w (bind_err (mapE previousJobEntry jobs) (\<lambda>js. Inr (join (nl @ nl) js)))"
proof (cases "mapE previousJobEntry jobs")
  case (Inl e)
  then show ?thesis by (simp add: freeResult_def)
next
  case (Inr js)
  have "list_all (\<lambda>y. \<not> sublist w y) js"
    using mapE_free [of "jobFree w" w previousJobEntry, OF previousJobEntry_free [OF assms(1)] assms(2) Inr] .
  with Inr assms(1) show ?thesis by (simp add: freeResult_def join_free)
qed

lemma educationHistoriesText_free:
  assumes "lowerWord w" and "fieldsFree w data" and "educationHistoriesText data = Inr joined"
  shows "\<not> sublist w joined"
proof (cases "educationHistories data")
  case None
  with assms show ?thesis by (simp add: educationHistoriesText_def lowerWord_def)
next
  case (Some ehs)
  with assms(3) obtain es where es: "mapE educationHistoryEntry ehs = Inr es" "joined = join (nl @ nl) es"
    by (cases "mapE educationHistoryEntry ehs") (auto simp: educationHistoriesText_def)
  from assms(2) Some have "list_all (historyFree w) ehs" by (simp add: fieldsFree_def)
  then have "list_all (\<lambda>y. \<not> sublist w y) es"
    using mapE_free [of "historyFree w" w educationHistoryEntry, OF educationHistoryEntry_free [OF assms(1)]] es(1)
    by blast
  with assms(1) es(2) show ?thesis by (simp add: join_free)
qed

lemma additionalEducation_free:
  assumes "lowerWord w" and "\<not> sublist w joined"
  shows "freeResult w (additionalEducation joined)"
proof (cases "joined = []")
  case True
  with assms(1) show ?thesis by (simp add: additionalEducation_def)
next
  case False
  have "cleanParts w [Lit (additionalEducationHeader @ nl @ nl), Val (Str joined)]"
    using assms(2) by (simp add: additionalEducationHeader_def lit_eval)
  with False assms(1) show ?thesis
    by (simp add: additionalEducation_def freeResult_template del: template.simps cleanParts.simps)
qed

lemma description_free:
  assumes "lowerWord w" and "textFree w v"
  shows "\<not> sublist w (toString (jsOr v (Str placeholderPrompt)))"
proof (cases "truthy v")
  case True
  with assms show ?thesis by (simp add: jsOr_def)
next
  case False
  have "list_all (\<lambda>c. \<not> lowercase c) placeholderPrompt"
    by (simp add: placeholderPrompt_def lowercase_def)
  with False assms(1) show ?thesis by (simp add: jsOr_def separator_free)
qed

lemma templateParts_clean:
  assumes "lowerWord w" and "fieldsFree w data" and "\<not> sublist w joined"
  shows "cleanParts w (headParts data @ [Sub (additionalEducation joined)] @ tailParts data)"
  using assms
  unfolding headParts_def tailParts_def
  by (simp add: fieldsFree_def jobFree_def optLine3_free
      previousJobsText_free [unfolded nl_def append.simps]
      additionalEducation_free description_free detailsLabel_def lit_eval del: template.simps)

lemma formatTemplateContent_free:
  assumes "lowerWord w" and "fieldsFree w data" and "formatTemplateContent data = Inr doc"
  shows "\<not> sublist w doc"
proof -
  obtain joined where j: "educationHistoriesText data = Inr joined"
    using educationHistoriesText_total by blast
  have "\<not> sublist w joined" by (rule educationHistoriesText_free [OF assms(1,2) j])
  then have c: "cleanParts w (headParts data @ [Sub (additionalEducation joined)] @ tailParts data)"
    by (rule templateParts_clean [OF assms(1,2)])
  from assms(3) j
  have "template (headParts data @ [Sub (additionalEducation joined)] @ tailParts data) = Inr doc"
    by (simp add: formatTemplateContent_def)
  with c show ?thesis using cleanParts_free [OF assms(1)] by blast
qed

lemma lowerWord_undefined: "lowerWord (ascii ''undefined'')"
  by (simp add: lowerWord_def lowercase_def ascii_def)

lemma lowerWord_null: "lowerWord (ascii ''null'')"
  by (simp add: lowerWord_def lowercase_def ascii_def)

text \<open>
  C8, as the code has it: the document always ends with the details header followed by
  the body; the body is the placeholder prompt when the description is empty or missing
  and the description itself otherwise; and the formatter never introduces the text
  \<open>undefined\<close> or \<open>null\<close>: when no field's own text contains the word, the document does
  not contain it, so a missing or empty field never shows up as \<open>undefined\<close> or \<open>null\<close>.
\<close>

theorem details_section_rendering:
  "\<exists>pre doc. formatTemplateContent data = Inr doc
     \<and> doc = pre @ detailsMarker
           @ (if truthy (description data) then toString (description data) else placeholderPrompt)
     \<and> (\<forall>w \<in> {ascii ''undefined'', ascii ''null''}. fieldsFree w data \<longrightarrow> \<not> sublist w doc)"
proof -
  obtain pre where f: "formatTemplateContent data
      = Inr (pre @ detailsMarker @ toString (jsOr (description data) (Str placeholderPrompt)))"
    using formatTemplateContent_ends by blast
  define doc where "doc = pre @ detailsMarker @ toString (jsOr (description data) (Str placeholderPrompt))"
  have d: "doc = pre @ detailsMarker
           @ (if truthy (description data) then toString (description data) else placeholderPrompt)"
    by (simp add: doc_def jsOr_def)
  have fd: "formatTemplateContent data = Inr doc" using f by (simp add: doc_def)
  have "fieldsFree w data \<longrightarrow> \<not> sublist w doc" if "w \<in> {ascii ''undefined'', ascii ''null''}" for w
  proof -
    from that have "lowerWord w" using lowerWord_undefined lowerWord_null by auto
    then show ?thesis using formatTemplateContent_free [OF _ _ fd] by blast
  qed
  with fd d show ?thesis by blast
qed

theorem details_section_rendering_witness:
  "fieldsFree (ascii ''undefined'') missingRecord \<and> fieldsFree (ascii ''null'') missingRecord
   \<and> (\<exists>pre doc. formatTemplateContent missingRecord = Inr doc
         \<and> doc = pre @ detailsMarker @ placeholderPrompt
         \<and> \<not> sublist (ascii ''undefined'') doc \<and> \<not> sublist (ascii ''null'') doc)"
proof -
  have f1: "fieldsFree (ascii ''undefined'') missingRecord"
    by (simp add: fieldsFree_def jobFree_def textFree_def missingRecord_def emptyRecord_def ascii_def)
  have f2: "fieldsFree (ascii ''null'') missingRecord"
    by (simp add: fieldsFree_def jobFree_def textFree_def missingRecord_def emptyRecord_def ascii_def)
  have d: "\<not> truthy (description missingRecord)"
    by (simp add: missingRecord_def emptyRecord_def)
  from details_section_rendering [of missingRecord] obtain pre doc
    where "formatTemplateContent missingRecord = Inr doc"
      and "doc = pre @ detailsMarker @ placeholderPrompt"
      and "\<forall>w \<in> {ascii ''undefined'', ascii ''null''}. fieldsFree w missingRecord \<longrightarrow> \<not> sublist w doc"
    using d by auto
  with f1 f2 show ?thesis by blast
qed

text \<open>
  C8 as stated (the body equals the placeholder exactly when the description is empty)
  fails in one direction: a description that is the placeholder text itself is not
  empty, and the document is the same as for the empty description.
\<close>

theorem placeholder_typed_as_description:
  "truthy (description placeholderAsDescription)
   \<and> formatTemplateContent placeholderAsDescription = formatTemplateContent emptyRecord
   \<and> map_sum id (suffix (detailsMarker @ placeholderPrompt))
        (formatTemplateContent placeholderAsDescription) = Inr True"
proof -
  have t: "truthy (description placeholderAsDescription)"
    by (simp add: placeholderAsDescription_def emptyRecord_def placeholderPrompt_def)
  have e: "formatTemplateContent placeholderAsDescription = formatTemplateContent emptyRecord"
    by (simp add: placeholderAsDescription_def emptyRecord_def formatTemplateContent_def
        educationHistoriesText_def headParts_def tailParts_def jsOr_def placeholderPrompt_def)
  obtain pre where "formatTemplateContent placeholderAsDescription
      = Inr (pre @ detailsMarker
             @ toString (jsOr (description placeholderAsDescription) (Str placeholderPrompt)))"
    using formatTemplateContent_ends by blast
  then have "formatTemplateContent placeholderAsDescription
      = Inr (pre @ detailsMarker @ placeholderPrompt)"
    using t by (simp add: jsOr_def placeholderAsDescription_def emptyRecord_def)
  then have "map_sum id (suffix (detailsMarker @ placeholderPrompt))
        (formatTemplateContent placeholderAsDescription) = Inr True"
    by (simp add: suffix_def)
  with t e show ?thesis by blast
qed


section \<open>Where the additional education header can come from\<close>

lemma sublist_boundary:
  assumes "boundary w s"
  shows "sublist w (xs @ s @ ys) \<longleftrightarrow> sublist w xs \<or> sublist w ys"
proof
  from assms have ne: "s \<noteq> []" and h: "hd s \<notin> set w" and l: "last s \<notin> set w"
    and ns: "\<not> sublist w s" by (auto simp: boundary_def)
  assume "sublist w (xs @ s @ ys)"
  then consider "sublist w xs" | "sublist w (s @ ys)"
    | w1 w2 where "w = w1 @ w2" "suffix w1 xs" "prefix w2 (s @ ys)"
    unfolding sublist_append [of w xs] by blast
  then show "sublist w xs \<or> sublist w ys"
  proof cases
    case 1
    then show ?thesis by simp
  next
    case 2
    then consider "sublist w ys" | w1 w2 where "w = w1 @ w2" "suffix w1 s" "prefix w2 ys"
      using ns unfolding sublist_append [of w s] by blast
    then show ?thesis
    proof cases
      case 1
      then show ?thesis by simp
    next
      case 2
      show ?thesis
      proof (cases "w1 = []")
        case True
        with 2 show ?thesis by auto
      next
        case False
        from 2(2) obtain zs where "s = zs @ w1" by (auto simp: suffix_def)
        with False have "last s = last w1" by simp
        with False 2(1) l show ?thesis by auto
      qed
    qed
  next
    case 3
    show ?thesis
    proof (cases w2)
      case Nil
      with 3 show ?thesis by auto
    next
      case (Cons c w2')
      with 3(3) ne have "c = hd s" by (cases s) auto
      with Cons 3(1) h show ?thesis by auto
    qed
  qed
next
  assume "sublist w xs \<or> sublist w ys"
  then show "sublist w (xs @ s @ ys)" by (auto simp: sublist_append)
qed

lemma partsFree_free:
  "w \<noteq> [] \<Longrightarrow> partsFree w ps \<Longrightarrow> template ps = Inr doc \<Longrightarrow> \<not> sublist w doc"
proof (induction w ps arbitrary: doc rule: partsFree.induct)
  case (1 w)
  then show ?case by auto
next
  case (2 w v)
  then show ?case by simp
next
  case (3 w e)
  then show ?case by (cases e) (auto simp: freeResult_def)
next
  case (4 w s ps)
  from "4.prems" obtain r where r: "template ps = Inr r" "doc = s @ r"
    by (cases "template ps") auto
  from "4.prems" have w: "w \<noteq> []" and b: "boundary w s" and "partsFree w ps" by auto
  with "4.IH" r have "\<not> sublist w r" by blast
  then show ?case using sublist_boundary [OF b, of "[]" r] w r by simp
next
  case (5 w v s ps)
  from "5.prems" obtain r where r: "template (Lit s # ps) = Inr r" "doc = toString v @ r"
    by (cases "template (Lit s # ps)") auto
  then obtain r' where r': "r = s @ r'" by (cases "template ps") auto
  from "5.prems" have w: "w \<noteq> []" and v: "\<not> sublist w (toString v)"
    and c: "partsFree w (Lit s # ps)" by auto
  with "5.IH" r have nr: "\<not> sublist w r" by blast
  from c have b: "boundary w s" by simp
  from nr have "\<not> sublist w r'" unfolding r' using sublist_boundary [OF b, of "[]" r'] by simp
  with v show ?case unfolding r(2) r' using sublist_boundary [OF b, of "toString v" r'] by simp
next
  case (6 w e s ps)
  from "6.prems" obtain x r where x: "e = Inr x" and r: "template (Lit s # ps) = Inr r" "doc = x @ r"
    by (cases e; cases "template (Lit s # ps)") auto
  then obtain r' where r': "r = s @ r'" by (cases "template ps") auto
  from "6.prems" x have w: "w \<noteq> []" and v: "\<not> sublist w x" and c: "partsFree w (Lit s # ps)"
    by (auto simp: freeResult_def)
  with "6.IH" r have nr: "\<not> sublist w r" by blast
  from c have b: "boundary w s" by simp
  from nr have "\<not> sublist w r'" unfolding r' using sublist_boundary [OF b, of "[]" r'] by simp
  with v show ?case unfolding r(2) r' using sublist_boundary [OF b, of x r'] by simp
qed simp_all

lemma freeResult_partsFree: "w \<noteq> [] \<Longrightarrow> partsFree w ps \<Longrightarrow> freeResult w (template ps)"
  by (cases "template ps") (auto simp: freeResult_def dest: partsFree_free)

lemmas title_eval = boundary_def additionalEducationTitle_def ascii_def nl_def sublist_Cons_right

lemma textFree_orEmpty_any:
  "w \<noteq> [] \<Longrightarrow> textFree w v \<Longrightarrow> \<not> sublist w (toString (jsOr v (Str [])))"
  by (cases v) (auto simp: textFree_def jsOr_def)

lemma formatDate_free_any:
  assumes "w \<noteq> []" and "0x5E74 \<notin> set w" and "0x6708 \<notin> set w" and "textFree w v"
  shows "freeResult w (formatDate v)"
proof (cases "truthy v")
  case False
  with assms(1) show ?thesis by (simp add: formatDate_def freeResult_def)
next
  case True
  then obtain d where v: "v = Str d" by (cases v) auto
  from assms(4) v have "\<not> sublist w d" by (simp add: textFree_def)
  then have "\<not> sublist w (replaceFirst 0x2D [0x5E74] d)" using assms(2) by (rule replaceFirst_free)
  then have "\<not> sublist w (replaceFirst 0x2D [0x5E74] d @ [0x6708])"
    using sublist_skip_char [OF assms(3), of "replaceFirst 0x2D [0x5E74] d" "[]"] assms(1)
    by simp
  with True v show ?thesis
    by (simp add: formatDate_def freeResult_def yearMarker_def monthMarker_def)
qed

lemma formatDate_titleFree:
  "textFree additionalEducationTitle v \<Longrightarrow> freeResult additionalEducationTitle (formatDate v)"
  by (rule formatDate_free_any) (simp_all add: additionalEducationTitle_def)

lemma title_nonempty: "additionalEducationTitle \<noteq> []"
  by (simp add: additionalEducationTitle_def)

lemma optLine3_titleFree:
  assumes "boundary additionalEducationTitle a" and "boundary additionalEducationTitle b"
      and "textFree additionalEducationTitle v"
  shows "freeResult additionalEducationTitle
           (if truthy v then template [Lit a, Val v, Lit b] else Inr [])"
proof (cases "truthy v")
  case True
  with assms have "partsFree additionalEducationTitle [Lit a, Val v, Lit b]" by simp
  then have "freeResult additionalEducationTitle (template [Lit a, Val v, Lit b])"
    by (rule freeResult_partsFree [OF title_nonempty])
  with True show ?thesis by (simp only: if_True)
next
  case False
  then show ?thesis by (simp add: freeResult_def title_nonempty)
qed

lemmas title_rules =
  optLine3_titleFree [unfolded additionalEducationTitle_def]
  formatDate_titleFree [unfolded additionalEducationTitle_def]
  freeResult_partsFree [OF title_nonempty, unfolded additionalEducationTitle_def]

lemma previousJobEntry_titleFree:
  "jobFree additionalEducationTitle job \<Longrightarrow> freeResult additionalEducationTitle (previousJobEntry job)"
  unfolding previousJobEntry_def additionalEducationTitle_def
  by (rule title_rules(3))
     (simp add: jobFree_def title_rules(1,2) textFree_orEmpty_any boundary_def ascii_def nl_def
        sublist_Cons_right del: template.simps)

lemma join_free_any:
  assumes "w \<noteq> []" and "0x0A \<notin> set w"
  shows "list_all (\<lambda>x. \<not> sublist w x) xs \<Longrightarrow> \<not> sublist w (join (nl @ nl) xs)"
proof (induction "nl @ nl" xs rule: join.induct)
  case 1
  then show ?case using assms(1) by simp
next
  case (2 x)
  then show ?case by simp
next
  case (3 x y ys)
  have dis: "set (nl @ nl) \<inter> set w = {}" using assms(2) by (simp add: nl_def)
  have ne: "nl @ nl \<noteq> []" by (simp add: nl_def)
  from 3 show ?case using sublist_sep [OF dis ne, of x "join (nl @ nl) (y # ys)"] by simp
qed

lemma previousJobsText_titleFree:
  assumes "list_all (jobFree additionalEducationTitle) jobs"
  shows "freeResult additionalEducationTitle
           (bind_err (mapE previousJobEntry jobs) (\<lambda>js. Inr (join (nl @ nl) js)))"
proof (cases "mapE previousJobEntry jobs")
  case (Inl e)
  then show ?thesis by (simp add: freeResult_def)
next
  case (Inr js)
  have "list_all (\<lambda>y. \<not> sublist additionalEducationTitle y) js"
    using mapE_free [of "jobFree additionalEducationTitle" additionalEducationTitle previousJobEntry,
        OF previousJobEntry_titleFree assms Inr] .
  then have "\<not> sublist additionalEducationTitle (join (nl @ nl) js)"
    by (rule join_free_any [OF title_nonempty, rotated]) (simp add: additionalEducationTitle_def)
  with Inr show ?thesis by (simp add: freeResult_def)
qed

lemma description_titleFree:
  assumes "textFree additionalEducationTitle v"
  shows "\<not> sublist additionalEducationTitle (toString (jsOr v (Str placeholderPrompt)))"
proof (cases "truthy v")
  case True
  with assms show ?thesis by (simp add: jsOr_def)
next
  case False
  then show ?thesis
    by (simp add: jsOr_def placeholderPrompt_def additionalEducationTitle_def sublist_Cons_right)
qed

lemma freeResult_empty_title: "freeResult additionalEducationTitle (Inr [])"
  by (simp add: freeResult_def title_nonempty)

lemma headTail_titleFree:
  assumes "fieldsFree additionalEducationTitle data"
  shows "partsFree additionalEducationTitle (headParts data @ [Sub (Inr [])] @ tailParts data)"
  using assms
  unfolding headParts_def tailParts_def additionalEducationTitle_def
  by (simp add: fieldsFree_def jobFree_def title_rules(1,2) textFree_orEmpty_any
      previousJobsText_titleFree [unfolded additionalEducationTitle_def nl_def append.simps]
      description_titleFree [unfolded additionalEducationTitle_def]
      freeResult_empty_title [unfolded additionalEducationTitle_def]
      detailsLabel_def boundary_def ascii_def nl_def sublist_Cons_right
      del: template.simps)

lemma header_contains_title: "sublist additionalEducationTitle additionalEducationHeader"
  by (simp add: additionalEducationHeader_def additionalEducationTitle_def)

lemma formatTemplateContent_headerFree:
  assumes "educationHistories data = None \<or> educationHistories data = Some []"
      and "fieldsFree additionalEducationTitle data"
      and "formatTemplateContent data = Inr doc"
  shows "\<not> sublist additionalEducationHeader doc"
proof -
  from assms(1) have j: "educationHistoriesText data = Inr []"
    by (auto simp: educationHistoriesText_def)
  have "template (headParts data @ [Sub (Inr [])] @ tailParts data) = Inr doc"
    using assms(3) j by (simp add: formatTemplateContent_def additionalEducation_def)
  then have "\<not> sublist additionalEducationTitle doc"
    using partsFree_free [OF title_nonempty headTail_titleFree [OF assms(2)]] by blast
  then show ?thesis
    using header_contains_title sublist_order.order_trans by blast
qed

text \<open>
  C7, as the code has it: the formatter emits the additional education section (its
  header, a blank line and the entries joined by blank lines) between the head and the
  tail of the template exactly when the list has at least one entry, and nothing there
  when the list is empty or absent. For a record none of whose field texts contains the
  section title, the document contains the header if and only if the list has at least
  one entry.
\<close>

theorem additional_education_section:
  "\<exists>pre post doc. template (headParts data) = Inr pre \<and> template (tailParts data) = Inr post
     \<and> formatTemplateContent data = Inr doc \<and>
     (case educationHistories data of
        Some (e # es) \<Rightarrow>
          (\<exists>entries. mapE educationHistoryEntry (e # es) = Inr entries \<and>
             doc = pre @ additionalEducationHeader @ nl @ nl @ join (nl @ nl) entries @ post)
      | _ \<Rightarrow> doc = pre @ post) \<and>
     (fieldsFree additionalEducationTitle data \<longrightarrow>
        (sublist additionalEducationHeader doc
           \<longleftrightarrow> (\<exists>e es. educationHistories data = Some (e # es))))"
proof -
  obtain pre where hp: "template (headParts data) = Inr pre" using headParts_total by blast
  obtain post where tp: "template (tailParts data) = Inr post" using tailParts_total by blast
  obtain doc where fd: "formatTemplateContent data = Inr doc"
    using formatTemplateContent_total by blast
  have s0: "additionalEducation [] = Inr []" by (simp add: additionalEducation_def)
  have shape: "case educationHistories data of
        Some (e # es) \<Rightarrow>
          (\<exists>entries. mapE educationHistoryEntry (e # es) = Inr entries \<and>
             doc = pre @ additionalEducationHeader @ nl @ nl @ join (nl @ nl) entries @ post)
      | _ \<Rightarrow> doc = pre @ post"
  proof (cases "educationHistories data")
    case None
    then have j: "educationHistoriesText data = Inr []" by (simp add: educationHistoriesText_def)
    have "doc = pre @ post"
      using formatTemplateContent_shape [OF j s0 hp tp] fd by simp
    with None show ?thesis by simp
  next
    case (Some ehs)
    show ?thesis
    proof (cases ehs)
      case Nil
      with Some have j: "educationHistoriesText data = Inr []"
        by (simp add: educationHistoriesText_def)
      have "doc = pre @ post"
        using formatTemplateContent_shape [OF j s0 hp tp] fd by simp
      with Some Nil show ?thesis by simp
    next
      case (Cons e es)
      obtain entries where m: "mapE educationHistoryEntry (e # es) = Inr entries"
        using mapE_total [of educationHistoryEntry "e # es"] educationHistoryEntry_total by blast
      from mapE_Cons_Inr [OF m] obtain y ys
        where ys: "entries = y # ys" "educationHistoryEntry e = Inr y" by blast
      from ys(2) have "y \<noteq> []" by (rule educationHistoryEntry_nonempty)
      then have ne: "join (nl @ nl) entries \<noteq> []"
        unfolding ys(1) by (rule join_Cons_nonempty)
      have j: "educationHistoriesText data = Inr (join (nl @ nl) entries)"
        using Some Cons m by (simp add: educationHistoriesText_def)
      have s: "additionalEducation (join (nl @ nl) entries)
          = Inr (additionalEducationHeader @ nl @ nl @ join (nl @ nl) entries)"
        using ne by (simp add: additionalEducation_def)
      have "doc = pre @ additionalEducationHeader @ nl @ nl @ join (nl @ nl) entries @ post"
        using formatTemplateContent_shape [OF j s hp tp] fd by simp
      with m have "\<exists>entries. mapE educationHistoryEntry (e # es) = Inr entries \<and>
             doc = pre @ additionalEducationHeader @ nl @ nl @ join (nl @ nl) entries @ post"
        by blast
      with Some Cons show ?thesis by simp
    qed
  qed
  have iff: "sublist additionalEducationHeader doc
           \<longleftrightarrow> (\<exists>e es. educationHistories data = Some (e # es))"
    if free: "fieldsFree additionalEducationTitle data"
  proof (cases "\<exists>e es. educationHistories data = Some (e # es)")
    case True
    then obtain e es where c: "educationHistories data = Some (e # es)" by blast
    with shape obtain entries
      where "doc = pre @ additionalEducationHeader @ nl @ nl @ join (nl @ nl) entries @ post"
      by auto
    then have "sublist additionalEducationHeader doc" by simp
    with True show ?thesis by simp
  next
    case False
    then have "educationHistories data = None \<or> educationHistories data = Some []"
      by (cases "educationHistories data"; cases "the (educationHistories data)") auto
    then have "\<not> sublist additionalEducationHeader doc"
      using free fd by (rule formatTemplateContent_headerFree)
    with False show ?thesis by simp
  qed
  from hp tp fd shape iff show ?thesis by blast
qed

theorem additional_education_section_witness:
  "fieldsFree additionalEducationTitle sampleRecord
   \<and> fieldsFree additionalEducationTitle missingRecord
   \<and> educationHistories missingRecord = None
   \<and> map_sum id (sublist additionalEducationHeader) (formatTemplateContent sampleRecord) = Inr True
   \<and> map_sum id (sublist additionalEducationHeader) (formatTemplateContent missingRecord) = Inr False"
proof -
  have f1: "fieldsFree additionalEducationTitle sampleRecord"
    by (simp add: fieldsFree_def jobFree_def historyFree_def textFree_def sampleRecord_def
        emptyRecord_def additionalEducationTitle_def ascii_def nl_def sublist_Cons_right)
  have f2: "fieldsFree additionalEducationTitle missingRecord"
    by (simp add: fieldsFree_def jobFree_def textFree_def missingRecord_def emptyRecord_def
        additionalEducationTitle_def)
  have e1: "\<exists>e es. educationHistories sampleRecord = Some (e # es)"
    by (simp add: sampleRecord_def emptyRecord_def)
  have e2: "educationHistories missingRecord = None"
    by (simp add: missingRecord_def emptyRecord_def)
  obtain doc1 where d1: "formatTemplateContent sampleRecord = Inr doc1"
    "sublist additionalEducationHeader doc1"
    using additional_education_section [of sampleRecord] f1 e1 by auto
  obtain doc2 where d2: "formatTemplateContent missingRecord = Inr doc2"
    "\<not> sublist additionalEducationHeader doc2"
    using additional_education_section [of missingRecord] f2 e2 by auto
  from f1 f2 e2 d1 d2 show ?thesis by simp
qed

text \<open>
  C7 as stated (for every record, the document contains the header if and only if the
  list has an entry) fails: a record with an empty list whose summary is the header text
  renders a document that contains the header.
\<close>

theorem header_without_entries:
  "educationHistories headerInSummary = Some []
   \<and> map_sum id (sublist additionalEducationHeader) (formatTemplateContent headerInSummary)
       = Inr True"
  by (simp add: headerInSummary_def emptyRecord_def format_eval sublist_Cons_right)

text \<open>
  C10, as the code has it: whatever the payload, a record that \<open>fetchResumeData\<close> hands to
  \<open>setFormData\<close> has the empty list of additional education entries, so the formatter
  emits no additional education section for it: the document is the head of the template
  followed directly by the tail. When no field text of the hydrated record contains the
  section title, the document does not contain the section header.
\<close>

theorem hydration_drops_additional_education:
  assumes "SetFormData fd \<in> set (fetchResumeData mode ident st user outcome)"
  shows "educationHistories fd = Some []
     \<and> (\<exists>pre post doc. template (headParts fd) = Inr pre \<and> template (tailParts fd) = Inr post
           \<and> formatTemplateContent fd = Inr doc \<and> doc = pre @ post
           \<and> (fieldsFree additionalEducationTitle fd
                 \<longrightarrow> \<not> sublist additionalEducationHeader doc))"
proof -
  from assms obtain row where fd: "fd = resumeData row" using SetFormData_resumeData by blast
  then have e: "educationHistories fd = Some []" by (simp add: resumeData_def)
  from resumeData_no_section [of row] fd obtain pre post
    where p: "template (headParts fd) = Inr pre" "template (tailParts fd) = Inr post"
      "formatTemplateContent fd = Inr (pre @ post)" by auto
  have "\<not> sublist additionalEducationHeader (pre @ post)"
    if "fieldsFree additionalEducationTitle fd"
    using formatTemplateContent_headerFree [OF _ that p(3)] e by simp
  with e p show ?thesis by blast
qed

theorem hydration_drops_additional_education_witness:
  "SetFormData (resumeData sampleRow)
     \<in> set (fetchResumeData Edit (Str (ascii ''r1'')) idleHook (Some (ascii ''u1''))
              (Resolved (Some sampleRow) None))
   \<and> fieldsFree additionalEducationTitle (resumeData sampleRow)
   \<and> educationHistories (resumeData sampleRow) = Some []
   \<and> (\<exists>pre post doc. template (headParts (resumeData sampleRow)) = Inr pre
         \<and> template (tailParts (resumeData sampleRow)) = Inr post
         \<and> formatTemplateContent (resumeData sampleRow) = Inr doc \<and> doc = pre @ post
         \<and> \<not> sublist additionalEducationHeader doc)"
proof -
  have h: "SetFormData (resumeData sampleRow)
     \<in> set (fetchResumeData Edit (Str (ascii ''r1'')) idleHook (Some (ascii ''u1''))
              (Resolved (Some sampleRow) None))"
    by (simp add: fetchResumeData_def idleHook_def ascii_def)
  have f: "fieldsFree additionalEducationTitle (resumeData sampleRow)"
    by (simp add: fieldsFree_def jobFree_def textFree_def resumeData_def sampleRow_def
        previousJobOfJson_def fieldOrEmpty_def orEmpty_def jsOr_def
        additionalEducationTitle_def ascii_def sublist_Cons_right)
  show ?thesis using h f hydration_drops_additional_education [OF h] by blast
qed

text \<open>
  C10 as stated (the document of a hydrated record never contains the section) fails: a
  row whose summary column holds the text of a section is hydrated with an empty list,
  and its document still contains the header, the blank line and the entry heading.
\<close>

theorem hydrated_document_with_section:
  "SetFormData (resumeData injectedRow)
     \<in> set (fetchResumeData Edit (Str (ascii ''r1'')) idleHook (Some (ascii ''u1''))
              (Resolved (Some injectedRow) None))
   \<and> educationHistories (resumeData injectedRow) = Some []
   \<and> map_sum id (sublist (additionalEducationHeader @ nl @ nl @ ascii ''### Night school''))
        (formatTemplateContent (resumeData injectedRow)) = Inr True"
proof -
  have h: "SetFormData (resumeData injectedRow)
     \<in> set (fetchResumeData Edit (Str (ascii ''r1'')) idleHook (Some (ascii ''u1''))
              (Resolved (Some injectedRow) None))"
    by (simp add: fetchResumeData_def idleHook_def ascii_def)
  have e: "educationHistories (resumeData injectedRow) = Some []"
    by (simp add: resumeData_def)
  have s: "map_sum id (sublist (additionalEducationHeader @ nl @ nl @ ascii ''### Night school''))
        (formatTemplateContent (resumeData injectedRow)) = Inr True"
    by (simp add: resumeData_def injectedRow_def sampleRow_def previousJobOfJson_def
        fieldOrEmpty_def orEmpty_def format_eval sublist_Cons_right)
  from h e s show ?thesis by blast
qed

end
